theory Spec2Isabelle
  imports Main "HOL-Library.AList"
begin

section \<open>Messages and the codec\<close>

text \<open>
  Byte strings (Python \<open>bytes\<close>) and text strings are both lists of characters.
  A Python \<open>dict\<close> is an association list with distinct keys in insertion order:
  \<open>d[k] = v\<close> is \<open>AList.update k v\<close>, \<open>d.pop(k)\<close> reads \<open>map_of d k\<close> and removes the
  entry with \<open>AList.delete k\<close>, \<open>k in d\<close> is \<open>map_of d k \<noteq> None\<close> and \<open>not d\<close> is
  \<open>d = []\<close>.
\<close>

type_synonym bytes = string

record BrokerMessage =
  key :: string
  payload :: bytes

text \<open>
  The generated module \<open>messages_pb2\<close> is not among the sources, so the wire codec of
  \<open>BrokerMessage\<close> is a parameter of every function that parses or serialises:
  \<open>ParseFromString\<close> returns \<open>None\<close> where the generated parser raises
  \<open>DecodeError\<close>.
\<close>

record codec =
  ParseFromString :: "bytes \<Rightarrow> BrokerMessage option"
  SerializeToString :: "BrokerMessage \<Rightarrow> bytes"

datatype error = KeyError | DecodeError | ValueError | AttributeError | CacheMiss

section \<open>The broker (tests/test_feedback.py, class Broker)\<close>

datatype sock = Inbound | Outbound

datatype level = Debug | Info | Critical

text \<open>
  A ROUTER socket as the broker uses it: the multipart messages sent on it, in order,
  and whether it has been closed.
\<close>

record socket =
  sent :: "bytes list list"
  closed :: bool

record registration =
  route :: bytes
  block :: bool
  log_text :: string

text \<open>
  The broker object together with the local variable \<open>available_outbound\<close> of
  \<open>start\<close>. \<open>poller\<close> is the set of sockets registered with the \<open>zmq.Poller\<close>;
  \<open>logged\<close> is what has been written to the logger (level and message template).
\<close>

record broker =
  inbound :: socket
  outbound :: socket
  inbound_components :: "(bytes \<times> registration) list"
  outbound_components :: "(bytes \<times> string) list"
  messages :: int
  ledger :: "(string \<times> bytes) list"
  buffer :: "(bytes \<times> bytes) list"
  poller :: "sock set"
  available_outbound :: "bytes list"
  logged :: "(level \<times> string) list"

definition new_socket :: socket where
  "new_socket = \<lparr>sent = [], closed = False\<rparr>"

definition Broker_init :: "int \<Rightarrow> broker" where
  "Broker_init msgs =
     \<lparr>inbound = new_socket, outbound = new_socket,
      inbound_components = [], outbound_components = [],
      messages = msgs, ledger = [], buffer = [],
      poller = {Outbound}, available_outbound = [], logged = []\<rparr>"

definition register_inbound :: "bytes \<Rightarrow> bytes \<Rightarrow> bool \<Rightarrow> string \<Rightarrow> broker \<Rightarrow> broker" where
  "register_inbound name r b l s =
     s\<lparr>inbound_components :=
         AList.update name \<lparr>route = r, block = b, log_text = l\<rparr> (inbound_components s)\<rparr>"

definition register_outbound :: "bytes \<Rightarrow> string \<Rightarrow> broker \<Rightarrow> broker" where
  "register_outbound name l s =
     s\<lparr>outbound_components := AList.update name l (outbound_components s)\<rparr>"

definition logmsg :: "level \<Rightarrow> string \<Rightarrow> broker \<Rightarrow> broker" where
  "logmsg lv m s = s\<lparr>logged := logged s @ [(lv, m)]\<rparr>"

definition send_multipart :: "bytes list \<Rightarrow> socket \<Rightarrow> socket" where
  "send_multipart frames k = k\<lparr>sent := sent k @ [frames]\<rparr>"

definition send_outbound :: "bytes list \<Rightarrow> broker \<Rightarrow> broker" where
  "send_outbound frames s = s\<lparr>outbound := send_multipart frames (outbound s)\<rparr>"

definition send_inbound :: "bytes list \<Rightarrow> broker \<Rightarrow> broker" where
  "send_inbound frames s = s\<lparr>inbound := send_multipart frames (inbound s)\<rparr>"

text \<open>
  \<open>Poller.register\<close> adds the socket (or keeps it); \<open>Poller.unregister\<close> raises
  \<open>KeyError\<close> for a socket that is not registered.
\<close>

definition poller_register :: "sock \<Rightarrow> broker \<Rightarrow> broker" where
  "poller_register k s = s\<lparr>poller := insert k (poller s)\<rparr>"

definition poller_unregister :: "sock \<Rightarrow> broker \<Rightarrow> (error \<times> broker) + broker" where
  "poller_unregister k s =
     (if k \<in> poller s then Inr (s\<lparr>poller := poller s - {k}\<rparr>) else Inl (KeyError, s))"

text \<open>Lines 107--114: a buffered message for the worker is sent at once, else the worker
  becomes available.\<close>

definition drain_or_available :: "bytes \<Rightarrow> bytes \<Rightarrow> broker \<Rightarrow> broker" where
  "drain_or_available component emp s =
     (case map_of (buffer s) component of
        Some message_data \<Rightarrow>
          send_outbound [component, emp, message_data]
            ((logmsg Debug ''The message was buffered'' s)
               \<lparr>buffer := AList.delete component (buffer s)\<rparr>)
      | None \<Rightarrow>
          (logmsg Debug ''Component added as available'' s)
            \<lparr>available_outbound := available_outbound s @ [component]\<rparr>)"

text \<open>Lines 116--121: the feedback's key is looked up in the ledger.\<close>

definition unblock_pending :: "BrokerMessage \<Rightarrow> bytes \<Rightarrow> broker \<Rightarrow> broker" where
  "unblock_pending broker_message emp s =
     (case map_of (ledger s) (key broker_message) of
        Some component \<Rightarrow>
          send_inbound [component, emp, payload broker_message]
            (logmsg Debug ''Unblocking pending inbound: {}''
              ((logmsg Debug ''Message ID found in ledger'' s)
                 \<lparr>ledger := AList.delete (key broker_message) (ledger s)\<rparr>))
      | None \<Rightarrow> s)"

text \<open>Lines 123--125.\<close>

definition reenable_inbound :: "broker \<Rightarrow> broker" where
  "reenable_inbound s =
     (if available_outbound s \<noteq> [] \<and> buffer s = [] \<and> ledger s = []
      then poller_register Inbound s else s)"

text \<open>Lines 101--125: the branch \<open>if self.outbound in event\<close>. Unpacking a multipart
  message that does not have three frames raises \<open>ValueError\<close>.\<close>

definition outbound_event :: "codec \<Rightarrow> bytes list \<Rightarrow> broker \<Rightarrow> (error \<times> broker) + broker" where
  "outbound_event c frames s =
     (case frames of
        [component, emp, feedback] \<Rightarrow>
          (case ParseFromString c feedback of
             None \<Rightarrow> Inl (DecodeError, s)
           | Some broker_message \<Rightarrow>
               Inr (reenable_inbound
                     (unblock_pending broker_message emp
                       (drain_or_available component emp
                         (logmsg Debug ''Handling outbound event: {}'' s)))))
      | _ \<Rightarrow> Inl (ValueError, s))"

text \<open>Lines 142--156: the routed worker is available.\<close>

definition dispatch :: "codec \<Rightarrow> bytes \<Rightarrow> bytes \<Rightarrow> BrokerMessage \<Rightarrow> bytes \<Rightarrow> bool \<Rightarrow> broker
    \<Rightarrow> (error \<times> broker) + broker" where
  "dispatch c component emp broker_message route_to blk s =
     (let s1 = send_outbound [route_to, emp, SerializeToString c broker_message]
                 ((logmsg Debug ''Broker routing to {}'' s)
                    \<lparr>available_outbound := remove1 route_to (available_outbound s)\<rparr>)
      in if \<not> blk
         then Inr (send_inbound [component, emp, ''1''] (logmsg Debug ''Unblocking inbound'' s1))
         else poller_unregister Inbound
                (logmsg Debug ''Inbound waiting for feedback: {}''
                  (s1\<lparr>ledger := AList.update (key broker_message) component (ledger s1)\<rparr>)))"

text \<open>Lines 158--162: the routed worker is not available.\<close>

definition to_buffer :: "codec \<Rightarrow> BrokerMessage \<Rightarrow> bytes \<Rightarrow> broker \<Rightarrow> (error \<times> broker) + broker" where
  "to_buffer c broker_message route_to s =
     poller_unregister Inbound
       (logmsg Info ''Sent to buffer.''
         (s\<lparr>buffer := AList.update route_to (SerializeToString c broker_message) (buffer s)\<rparr>))"

text \<open>Lines 127--162: the branch \<open>elif self.inbound in event\<close>. The lookup
  \<open>self.inbound_components[component]\<close> raises \<open>KeyError\<close> for an unregistered
  identity.\<close>

definition inbound_event :: "codec \<Rightarrow> bytes list \<Rightarrow> broker \<Rightarrow> (error \<times> broker) + broker" where
  "inbound_event c frames s0 =
     (let s = logmsg Debug ''Handling inbound event'' s0 in
      case frames of
        [component, emp, message_data] \<Rightarrow>
          (case ParseFromString c message_data of
             None \<Rightarrow> Inl (DecodeError, s)
           | Some broker_message \<Rightarrow>
               (case map_of (inbound_components s) component of
                  None \<Rightarrow> Inl (KeyError, s)
                | Some reg \<Rightarrow>
                    if route reg = []
                    then Inr (send_inbound [component, emp, ''1'']
                                (logmsg Debug ''Message back to {}'' s))
                    else if route reg \<in> set (available_outbound s)
                    then dispatch c component emp broker_message (route reg) (block reg) s
                    else to_buffer c broker_message (route reg) s))
      | _ \<Rightarrow> Inl (ValueError, s))"

text \<open>
  What the sockets hold while \<open>self.poller.poll()\<close> is waiting: the next multipart
  message on each socket, if any. The poller looks at a socket only when it is
  registered. \<open>poll()\<close> is called without a timeout: it returns the sockets that are
  ready once at least one registered socket is, and does not return before (\<open>None\<close>).
\<close>

record poll_input =
  out_ready :: "bytes list option"
  in_ready :: "bytes list option"

definition polled :: "sock \<Rightarrow> broker \<Rightarrow> bytes list option \<Rightarrow> bytes list option" where
  "polled k s ready = (if k \<in> poller s then ready else None)"

type_synonym event = "bytes list option \<times> bytes list option"

definition poll :: "broker \<Rightarrow> poll_input \<Rightarrow> event option" where
  "poll s i =
     (case (polled Outbound s (out_ready i), polled Inbound s (in_ready i)) of
        (None, None) \<Rightarrow> None
      | event \<Rightarrow> Some event)"

text \<open>Lines 99--167: the body of the loop for the event that the poll returned. Its last
  branch needs an event with neither socket, which \<open>poll\<close> does not return.\<close>

definition handle_event :: "codec \<Rightarrow> event \<Rightarrow> broker \<Rightarrow> (error \<times> broker) + broker" where
  "handle_event c event s0 =
     (let s = logmsg Debug ''Event {}'' s0 in
      case (case fst event of
              Some frames \<Rightarrow> outbound_event c frames s
            | None \<Rightarrow>
               (case snd event of
                  Some frames \<Rightarrow> inbound_event c frames s
                | None \<Rightarrow> Inr (logmsg Critical ''Socket not known.'' s))) of
        Inl e \<Rightarrow> Inl e
      | Inr s' \<Rightarrow> Inr (logmsg Debug ''Finished event cycle.'' s'))"

text \<open>Lines 97--167: one iteration of the loop of \<open>start\<close>. It is \<open>None\<close> when the
  poll does not return: nothing is logged and nothing changes.\<close>

definition iteration ::
  "codec \<Rightarrow> poll_input \<Rightarrow> broker \<Rightarrow> ((error \<times> broker) + broker) option" where
  "iteration c i s =
     (case poll s i of
        None \<Rightarrow> None
      | Some event \<Rightarrow> Some (handle_event c event s))"

text \<open>
  The loop \<open>for i in range(self.messages)\<close>. The list gives what the sockets hold, one
  entry after the other as the world around the broker changes. While no registered
  socket is ready the poll goes on waiting and the next entry is looked at; when the
  entries run out the poll never returns (\<open>Blocked\<close>). An exception leaves \<open>start\<close>
  (\<open>Raised\<close>).
\<close>

datatype outcome = Returned broker | Raised error broker | Blocked broker

fun event_loop :: "codec \<Rightarrow> nat \<Rightarrow> poll_input list \<Rightarrow> broker \<Rightarrow> outcome" where
  "event_loop c 0 ins s = Returned s"
| "event_loop c (Suc n) [] s = Blocked s"
| "event_loop c (Suc n) (i # ins) s =
     (case iteration c i s of
        None \<Rightarrow> event_loop c (Suc n) ins s
      | Some (Inl (e, s')) \<Rightarrow> Raised e s'
      | Some (Inr s') \<Rightarrow> event_loop c n ins s')"

text \<open>Lines 89--94: the local list of available workers is created empty.\<close>

definition launch :: "broker \<Rightarrow> broker" where
  "launch s =
     logmsg Info ''Outbound socket: {}''
       (logmsg Info ''Inbound socket: {}''
         (logmsg Info ''Launch broker'' (s\<lparr>available_outbound := []\<rparr>)))"

definition start :: "codec \<Rightarrow> poll_input list \<Rightarrow> broker \<Rightarrow> outcome" where
  "start c ins s = event_loop c (nat (messages s)) ins (launch s)"

text \<open>The broker state an outcome ends in, and whether \<open>start\<close> returned.\<close>

fun final :: "outcome \<Rightarrow> broker" where
  "final (Returned s) = s"
| "final (Raised e s) = s"
| "final (Blocked s) = s"

fun returned :: "outcome \<Rightarrow> bool" where
  "returned (Returned s) = True"
| "returned (Raised e s) = False"
| "returned (Blocked s) = False"

fun raised :: "outcome \<Rightarrow> error option" where
  "raised (Returned s) = None"
| "raised (Raised e s) = Some e"
| "raised (Blocked s) = None"

text \<open>
  A broker as \<open>__init__\<close> and the \<open>register_*\<close> methods leave it: nothing pending, only
  the outbound socket registered with the poller.
\<close>

definition unstarted :: "broker \<Rightarrow> bool" where
  "unstarted b \<longleftrightarrow> ledger b = [] \<and> buffer b = [] \<and> poller b = {Outbound}"

text \<open>The gate on the inbound side: with anything in the ledger or in the buffer, the
  inbound socket is not registered with the poller.\<close>

definition gate :: "broker \<Rightarrow> bool" where
  "gate s \<longleftrightarrow> (ledger s \<noteq> [] \<or> buffer s \<noteq> [] \<longrightarrow> Inbound \<notin> poller s)"

text \<open>The number of iterations the loop has completed, read off the log: every
  iteration ends with the line \<open>Finished event cycle.\<close>\<close>

definition cycles :: "broker \<Rightarrow> nat" where
  "cycles s = count_list (logged s) (Debug, ''Finished event cycle.'')"

text \<open>What no iteration changes: the registrations and whether the sockets are
  closed.\<close>

definition kept :: "broker \<Rightarrow> broker \<Rightarrow> bool" where
  "kept s s' \<longleftrightarrow> inbound_components s' = inbound_components s \<and>
     closed (inbound s') = closed (inbound s) \<and> closed (outbound s') = closed (outbound s)"

text \<open>
  A poll result that no branch of the loop rejects: three frames, a payload the codec can
  parse and, on the inbound side, a registered sender.
\<close>

definition frames_ok :: "codec \<Rightarrow> (bytes \<Rightarrow> bool) \<Rightarrow> bytes list option \<Rightarrow> bool" where
  "frames_ok c known ready =
     (case ready of
        None \<Rightarrow> True
      | Some [component, emp, data] \<Rightarrow> ParseFromString c data \<noteq> None \<and> known component
      | Some _ \<Rightarrow> False)"

definition input_ok :: "codec \<Rightarrow> broker \<Rightarrow> poll_input \<Rightarrow> bool" where
  "input_ok c b i \<longleftrightarrow>
     frames_ok c (\<lambda>w. True) (out_ready i) \<and>
     frames_ok c (\<lambda>w. map_of (inbound_components b) w \<noteq> None) (in_ready i)"

text \<open>A message of a worker is waiting on the outbound socket, which is always
  registered.\<close>

definition outbound_waiting :: "poll_input \<Rightarrow> bool" where
  "outbound_waiting i \<longleftrightarrow> out_ready i \<noteq> None"

section \<open>The push-pull service (pylm_ng/components/services.py, class PushPullService)\<close>

text \<open>Modelled from the spec: \<open>PalmMessage\<close> is declared in \<open>messages_pb2\<close>, which is not
  among the sources. The spec gives the Client Envelope the fields \<open>client\<close>,
  \<open>pipeline\<close>, \<open>function\<close>, \<open>stage\<close> and \<open>payload\<close> and possibly more; further
  fields are the extension part of the record. Its codec is a parameter, as for
  \<open>BrokerMessage\<close>.
\<close>

record PalmMessage =
  client :: string
  pipeline :: string
  func :: string
  stage :: int
  palm_payload :: bytes

record 'a palm_codec =
  ParsePalm :: "bytes \<Rightarrow> 'a PalmMessage_scheme option"
  SerializePalm :: "'a PalmMessage_scheme \<Rightarrow> bytes"

text \<open>Modelled from the spec: the cache class is not among the sources. The spec gives it
  the operations put, get and delete on opaque string keys; the service calls
  \<open>cache.set\<close> and \<open>cache.get\<close>. A \<open>get\<close> of a key that is not stored fails the
  request (the spec calls a miss fatal).
\<close>

type_synonym cache = "(string \<times> bytes) list"

definition cache_set :: "string \<Rightarrow> bytes \<Rightarrow> cache \<Rightarrow> cache" where
  "cache_set k v ch = AList.update k v ch"

definition cache_get :: "string \<Rightarrow> cache \<Rightarrow> bytes option" where
  "cache_get k ch = map_of ch k"

definition cache_delete :: "string \<Rightarrow> cache \<Rightarrow> cache" where
  "cache_delete k ch = AList.delete k ch"

text \<open>
  What the service does, in order: messages on the REQ socket to the broker, pushes to
  and pulls from the worker pool, and calls of the \<open>handle_feedback\<close> hook.
\<close>

datatype action =
    BrokerSend bytes
  | BrokerRecv bytes
  | PushSend bytes
  | PullRecv bytes
  | HandleFeedback bytes

text \<open>
  The service object. \<open>cache\<close> is \<open>None\<close> when the constructor's default is kept;
  \<open>n_messages\<close> is \<open>self.messages\<close>; \<open>drawn\<close> counts the calls of \<open>uuid4\<close> so far;
  \<open>user\<close> is whatever state an overriding subclass keeps; \<open>broker_in\<close> and
  \<open>pull_in\<close> are the messages that \<open>self.broker.recv()\<close> and \<open>self.pull.recv()\<close> will
  deliver, in order; \<open>slog\<close> is the logger's output.
\<close>

record 'u service =
  palm :: bool
  cache :: "cache option"
  n_messages :: int
  drawn :: nat
  user :: 'u
  trace :: "action list"
  broker_in :: "bytes list"
  pull_in :: "bytes list"
  slog :: "(level \<times> string) list"

text \<open>
  A generator object as Python runs it. The call of \<open>scatter\<close> only creates it, from the
  message; no code of the body runs yet. Each turn of the \<open>for\<close> loop resumes it: the
  body runs to its next \<open>yield\<close>, to its end, or to an exception, and in doing so may
  read and change the state of the object, which by then includes what
  \<open>handle_feedback\<close> has done.
\<close>

datatype 'g resumed = Yield bytes 'g | Stop | Throw error

text \<open>The three methods "to be overridden"; \<open>scatter\<close> and \<open>resume\<close> together are
  the generator method.\<close>

record ('u, 'g) hooks =
  scatter :: "bytes \<Rightarrow> 'g"
  resume :: "'g \<Rightarrow> 'u \<Rightarrow> 'g resumed \<times> 'u"
  handle_feedback :: "bytes \<Rightarrow> 'u \<Rightarrow> 'u"
  reply_feedback :: "'u \<Rightarrow> bytes"

text \<open>A generator that yields given values one after the other and looks at nothing
  else: its state is the list of the values still to come.\<close>

definition yield_each :: "bytes list \<Rightarrow> 'u \<Rightarrow> bytes list resumed \<times> 'u" where
  "yield_each g u = (case g of [] \<Rightarrow> (Stop, u) | x # xs \<Rightarrow> (Yield x xs, u))"

text \<open>Lines 156--178: the methods as \<open>PushPullService\<close> defines them; \<open>scatter\<close>
  yields the message once.\<close>

definition PushPullService_hooks :: "('u, bytes list) hooks" where
  "PushPullService_hooks =
     \<lparr>scatter = (\<lambda>message_data. [message_data]),
      resume = yield_each,
      handle_feedback = (\<lambda>message_data u. u),
      reply_feedback = (\<lambda>u. ''0'')\<rparr>"

text \<open>docs/source/examples/scatter/master.py: \<open>MyMaster.scatter\<close> yields the message
  three times.\<close>

definition MyMaster_hooks :: "('u, bytes list) hooks" where
  "MyMaster_hooks =
     \<lparr>scatter = (\<lambda>message. replicate 3 message),
      resume = yield_each,
      handle_feedback = (\<lambda>message_data u. u),
      reply_feedback = (\<lambda>u. ''0'')\<rparr>"

text \<open>
  Lines 111--133. \<open>uuids\<close> is the sequence of values that \<open>str(uuid4())\<close> returns in
  this process; each call takes the next one.
\<close>

definition translate_to_broker ::
  "codec \<Rightarrow> 'a palm_codec \<Rightarrow> (nat \<Rightarrow> string) \<Rightarrow> bytes \<Rightarrow> 'u service
     \<Rightarrow> (error \<times> 'u service) + (bytes \<times> 'u service)" where
  "translate_to_broker c pc uuids message_data s0 =
     (let broker_message_key = uuids (drawn s0);
          s = s0\<lparr>drawn := Suc (drawn s0)\<rparr>
      in if palm s
         then (case ParsePalm pc message_data of
                 None \<Rightarrow> Inl (DecodeError, s)
               | Some palm_message \<Rightarrow>
                   (case cache s of
                      None \<Rightarrow> Inl (AttributeError, s)
                    | Some ch \<Rightarrow>
                        Inr (SerializeToString c
                               \<lparr>key = broker_message_key, payload = palm_payload palm_message\<rparr>,
                             s\<lparr>cache := Some (cache_set broker_message_key message_data ch)\<rparr>)))
         else Inr (SerializeToString c \<lparr>key = broker_message_key, payload = message_data\<rparr>, s))"

text \<open>Lines 135--154.\<close>

definition translate_from_broker ::
  "codec \<Rightarrow> 'a palm_codec \<Rightarrow> bytes \<Rightarrow> 'u service
     \<Rightarrow> (error \<times> 'u service) + (bytes \<times> 'u service)" where
  "translate_from_broker c pc message_data s =
     (case ParseFromString c message_data of
        None \<Rightarrow> Inl (DecodeError, s)
      | Some broker_message \<Rightarrow>
          if palm s
          then (case cache s of
                  None \<Rightarrow> Inl (AttributeError, s)
                | Some ch \<Rightarrow>
                    (case cache_get (key broker_message) ch of
                       None \<Rightarrow> Inl (CacheMiss, s)
                     | Some cached \<Rightarrow>
                         (case ParsePalm pc cached of
                            None \<Rightarrow> Inl (DecodeError, s)
                          | Some palm_message \<Rightarrow>
                              Inr (SerializePalm pc
                                     (palm_message\<lparr>palm_payload := payload broker_message\<rparr>),
                                   s))))
          else Inr (payload broker_message, s))"

definition act :: "action list \<Rightarrow> 'u service \<Rightarrow> 'u service" where
  "act as s = s\<lparr>trace := trace s @ as\<rparr>"

definition slogmsg :: "level \<Rightarrow> string \<Rightarrow> 'u service \<Rightarrow> 'u service" where
  "slogmsg lv m s = s\<lparr>slog := slog s @ [(lv, m)]\<rparr>"

text \<open>
  How a run of the service ends: \<open>start\<close> returns, a \<open>recv\<close> waits for a message
  that never comes, or the generator raises.
\<close>

datatype 'u ending = Done "'u service" | Waiting "'u service" | Failed error "'u service"

text \<open>Lines 181--185: the service announces itself to the broker.\<close>

definition greet :: "codec \<Rightarrow> 'u service \<Rightarrow> 'u service" where
  "greet c s =
     act [BrokerSend (SerializeToString c \<lparr>key = ''0'', payload = ''0''\<rparr>)]
       (slogmsg Info ''Launch component {}'' s)"

text \<open>Lines 188--191: the broker's next message has arrived.\<close>

definition received :: "bytes \<Rightarrow> bytes list \<Rightarrow> 'u service \<Rightarrow> 'u service" where
  "received message_data later s =
     slogmsg Debug ''Got message from broker''
       ((act [BrokerRecv message_data]
          (slogmsg Debug ''Component {} blocked waiting for broker'' s))
        \<lparr>broker_in := later\<rparr>)"

text \<open>Lines 192--194: the loop \<open>for scattered in self.scatter(message_data)\<close>. Each
  turn resumes the generator on the state of the object as it is then, pushes what it
  yields, waits for one response and hands it to \<open>handle_feedback\<close>.\<close>

function fan_out :: "('u, 'g) hooks \<Rightarrow> 'g \<Rightarrow> 'u service \<Rightarrow> 'u ending" where
  "fan_out h g s =
     (case resume h g (user s) of
        (Stop, u) \<Rightarrow> Done (s\<lparr>user := u\<rparr>)
      | (Throw e, u) \<Rightarrow> Failed e (s\<lparr>user := u\<rparr>)
      | (Yield scattered g', u) \<Rightarrow>
          (case pull_in s of
             [] \<Rightarrow> Waiting (act [PushSend scattered] (s\<lparr>user := u\<rparr>))
           | r # rs \<Rightarrow>
               fan_out h g'
                 ((act [PushSend scattered, PullRecv r, HandleFeedback r] s)
                    \<lparr>pull_in := rs, user := handle_feedback h r u\<rparr>)))"
  by pat_completeness auto
termination
  by (relation "measure (\<lambda>(h, g, s). length (pull_in s))") (auto simp: act_def)

text \<open>Lines 187--196: the loop \<open>for i in range(self.messages)\<close>.\<close>

fun serve :: "('u, 'g) hooks \<Rightarrow> nat \<Rightarrow> 'u service \<Rightarrow> 'u ending" where
  "serve h 0 s = Done s"
| "serve h (Suc n) s =
     (case broker_in s of
        [] \<Rightarrow> Waiting (slogmsg Debug ''Component {} blocked waiting for broker'' s)
      | message_data # later \<Rightarrow>
          (case fan_out h (scatter h message_data) (received message_data later s) of
             Waiting s' \<Rightarrow> Waiting s'
           | Failed e s' \<Rightarrow> Failed e s'
           | Done s' \<Rightarrow> serve h n (act [BrokerSend (reply_feedback h (user s'))] s')))"

text \<open>Lines 180--196.\<close>

definition service_start :: "codec \<Rightarrow> ('u, 'g) hooks \<Rightarrow> 'u service \<Rightarrow> 'u ending" where
  "service_start c h s = serve h (nat (n_messages s)) (greet c s)"

fun ending_state :: "'u ending \<Rightarrow> 'u service" where
  "ending_state (Done s) = s"
| "ending_state (Waiting s) = s"
| "ending_state (Failed e s) = s"

fun finished :: "'u ending \<Rightarrow> bool" where
  "finished (Done s) = True"
| "finished (Waiting s) = False"
| "finished (Failed e s) = False"

text \<open>
  The exchange with the pool that one broker message gives rise to, as the specification
  words it: for each element of \<open>scatter\<close>, push it, then take one response and call
  \<open>handle_feedback\<close> on it, before the next element. \<open>exchanges\<close> pairs each element
  with its response, for the responses at hand; \<open>round_actions\<close> is the whole pass:
  receive, the pushes and pulls in pairs, then the one reply.
\<close>

fun exchanges :: "('u, 'g) hooks \<Rightarrow> 'g \<Rightarrow> 'u \<Rightarrow> bytes list \<Rightarrow> (bytes \<times> bytes) list" where
  "exchanges h g u [] = []"
| "exchanges h g u (r # rs) =
     (case resume h g u of
        (Yield x g', u') \<Rightarrow> (x, r) # exchanges h g' (handle_feedback h r u') rs
      | _ \<Rightarrow> [])"

definition round_actions ::
  "('u, 'g) hooks \<Rightarrow> 'u \<Rightarrow> bytes \<Rightarrow> bytes list \<Rightarrow> bytes \<Rightarrow> action list" where
  "round_actions h u message_data responses reply =
     BrokerRecv message_data #
     concat (map (\<lambda>(x, r). [PushSend x, PullRecv r, HandleFeedback r])
                 (exchanges h (scatter h message_data) u responses)) @
     [BrokerSend reply]"

fun is_BrokerRecv :: "action \<Rightarrow> bool" where
  "is_BrokerRecv (BrokerRecv m) = True"
| "is_BrokerRecv _ = False"

section \<open>Concrete instances\<close>

text \<open>Modelled from the spec: the wire format of \<open>messages_pb2\<close> is not among the sources.
  For evaluating the model on concrete inputs, length-prefixed encodings of the two
  envelopes. A field is written as one byte for its length and then its bytes. A Broker
  envelope is the key as a field and then the payload; a Client envelope is the client,
  the pipeline and the function as fields, one byte for the stage, and then the payload.
\<close>

definition put_field :: "bytes \<Rightarrow> bytes" where
  "put_field f = char_of (length f) # f"

definition get_field :: "bytes \<Rightarrow> (bytes \<times> bytes) option" where
  "get_field b =
     (case b of
        [] \<Rightarrow> None
      | n # rest \<Rightarrow>
          if of_char n \<le> length rest
          then Some (take (of_char n) rest, drop (of_char n) rest)
          else None)"

definition wire_serialize :: "BrokerMessage \<Rightarrow> bytes" where
  "wire_serialize m = put_field (key m) @ payload m"

definition wire_parse :: "bytes \<Rightarrow> BrokerMessage option" where
  "wire_parse b =
     (case get_field b of
        None \<Rightarrow> None
      | Some (k, p) \<Rightarrow> Some \<lparr>key = k, payload = p\<rparr>)"

definition wire :: codec where
  "wire = \<lparr>ParseFromString = wire_parse, SerializeToString = wire_serialize\<rparr>"

definition palm_serialize :: "PalmMessage \<Rightarrow> bytes" where
  "palm_serialize m =
     put_field (client m) @ put_field (pipeline m) @ put_field (func m) @
     char_of (nat (stage m)) # palm_payload m"

definition palm_parse :: "bytes \<Rightarrow> PalmMessage option" where
  "palm_parse b =
     (case get_field b of
        None \<Rightarrow> None
      | Some (c, b1) \<Rightarrow>
          (case get_field b1 of
             None \<Rightarrow> None
           | Some (p, b2) \<Rightarrow>
               (case get_field b2 of
                  None \<Rightarrow> None
                | Some (f, b3) \<Rightarrow>
                    (case b3 of
                       [] \<Rightarrow> None
                     | st # pl \<Rightarrow>
                         Some \<lparr>client = c, pipeline = p, func = f,
                               stage = int (of_char st), palm_payload = pl\<rparr>))))"

definition palm_wire :: "unit palm_codec" where
  "palm_wire = \<lparr>ParsePalm = palm_parse, SerializePalm = palm_serialize\<rparr>"

definition msg :: "string \<Rightarrow> bytes \<Rightarrow> bytes" where
  "msg k p = wire_serialize \<lparr>key = k, payload = p\<rparr>"

text \<open>Lines 218--222 of the test: the broker of \<open>test_feedback\<close>, for a given number
  of iterations.\<close>

definition test_broker :: "int \<Rightarrow> broker" where
  "test_broker n =
     register_inbound ''outbound'' [] False ''outbound''
       (register_inbound ''inbound2'' ''outbound'' False ''inbound2''
         (register_inbound ''inbound1'' ''outbound'' True ''inbound1'' (Broker_init n)))"

definition ev_out :: "bytes list \<Rightarrow> poll_input" where
  "ev_out frames = \<lparr>out_ready = Some frames, in_ready = None\<rparr>"

definition ev_in :: "bytes list \<Rightarrow> poll_input" where
  "ev_in frames = \<lparr>out_ready = None, in_ready = Some frames\<rparr>"

text \<open>The worker's first message, and the test's broker after one iteration has handled
  it: the worker is available and the inbound socket is registered.\<close>

definition worker_ready :: poll_input where
  "worker_ready = ev_out [''outbound'', [], msg ''0'' ''READY'']"

definition listening :: broker where
  "listening = final (event_loop wire 1 [worker_ready] (launch (test_broker 20)))"


text \<open>Five poll results in the setting of \<open>test_feedback\<close>: the worker announces
  itself; the non-blocking producer \<open>inbound2\<close> sends the request \<open>k1\<close>; the blocking
  producer \<open>inbound1\<close> sends the request \<open>k0\<close> before the worker has answered; the
  worker returns the feedback for \<open>k1\<close>; the worker returns the feedback for
  \<open>k0\<close>.\<close>

definition buffered_run :: "poll_input list" where
  "buffered_run =
     [worker_ready,
      ev_in [''inbound2'', [], msg ''k1'' ''1''],
      ev_in [''inbound1'', [], msg ''k0'' ''0''],
      ev_out [''outbound'', [], msg ''k1'' ''1''],
      ev_out [''outbound'', [], msg ''k0'' ''0'']]"



text \<open>A Client envelope, the uuids of a process (a row of \<open>n\<close> letters for the
  \<open>n\<close>-th call), and a service object for each configuration: one that takes PALM
  messages and holds the envelope in its cache under the key \<open>a\<close>, one that takes binary
  messages and has no cache, and one that is to serve a single broker message with three
  responses of the pool waiting.\<close>

definition hello :: PalmMessage where
  "hello = \<lparr>client = ''c1'', pipeline = ''p'', func = ''f'', stage = 0,
            palm_payload = ''hello''\<rparr>"

definition letters :: "nat \<Rightarrow> string" where
  "letters n = replicate (Suc n) (CHR ''a'')"

definition palm_service :: "unit service" where
  "palm_service =
     \<lparr>palm = True, cache = Some [(''a'', palm_serialize hello)], n_messages = 1,
      drawn = 1, user = (), trace = [], broker_in = [], pull_in = [], slog = []\<rparr>"

definition binary_service :: "unit service" where
  "binary_service =
     \<lparr>palm = False, cache = None, n_messages = 1,
      drawn = 0, user = (), trace = [], broker_in = [], pull_in = [], slog = []\<rparr>"

definition scatter_service :: "unit service" where
  "scatter_service =
     \<lparr>palm = False, cache = None, n_messages = 1,
      drawn = 0, user = (), trace = [], broker_in = [msg ''k'' ''m''],
      pull_in = [''r1'', ''r2'', ''r3''], slog = []\<rparr>"

text \<open>
  Hooks whose generator looks at what the feedback handler has stored:
  \<^verbatim>\<open>
  def scatter(self, message):
      for i in range(2):
          yield message + self.seen
  def handle_feedback(self, response):
      self.seen += response
  def reply_feedback(self):
      return self.seen
  \<close>
  The state of the object is \<open>seen\<close>; the state of the generator is the message and
  the number of turns left. \<open>feedback_service\<close> is to serve the one broker message
  \<open>x\<close>, with two responses of the pool waiting.
\<close>

definition growing_hooks :: "(bytes, bytes \<times> nat) hooks" where
  "growing_hooks =
     \<lparr>scatter = (\<lambda>message. (message, 2)),
      resume = (\<lambda>(message, k) seen.
                  case k of
                    0 \<Rightarrow> (Stop, seen)
                  | Suc k' \<Rightarrow> (Yield (message @ seen) (message, k'), seen)),
      handle_feedback = (\<lambda>response seen. seen @ response),
      reply_feedback = (\<lambda>seen. seen)\<rparr>"

definition feedback_service :: "bytes service" where
  "feedback_service =
     \<lparr>palm = False, cache = None, n_messages = 1,
      drawn = 0, user = [], trace = [], broker_in = [''x''],
      pull_in = [''r1'', ''r2''], slog = []\<rparr>"

section \<open>The concrete codecs parse what they serialise\<close>

lemma get_put_field: "length f < 256 \<Longrightarrow> get_field (put_field f @ rest) = Some (f, rest)"
  by (simp add: get_field_def put_field_def)

lemma wire_roundtrip: "length (key m) < 256 \<Longrightarrow> wire_parse (wire_serialize m) = Some m"
  by (simp add: wire_parse_def wire_serialize_def get_put_field)

lemma palm_roundtrip:
  assumes "length (client m) < 256" "length (pipeline m) < 256" "length (func m) < 256"
    and "0 \<le> stage m" "stage m < 256"
  shows "palm_parse (palm_serialize m) = Some m"
  using assms by (simp add: palm_parse_def palm_serialize_def get_put_field)

section \<open>Field projections of the broker operations\<close>

lemma logmsg_fields [simp]:
  "ledger (logmsg lv m s) = ledger s"
  "buffer (logmsg lv m s) = buffer s"
  "poller (logmsg lv m s) = poller s"
  "available_outbound (logmsg lv m s) = available_outbound s"
  "inbound (logmsg lv m s) = inbound s"
  "outbound (logmsg lv m s) = outbound s"
  "inbound_components (logmsg lv m s) = inbound_components s"
  "messages (logmsg lv m s) = messages s"
  "logged (logmsg lv m s) = logged s @ [(lv, m)]"
  by (simp_all add: logmsg_def)

lemma send_outbound_fields [simp]:
  "ledger (send_outbound f s) = ledger s"
  "buffer (send_outbound f s) = buffer s"
  "poller (send_outbound f s) = poller s"
  "available_outbound (send_outbound f s) = available_outbound s"
  "inbound (send_outbound f s) = inbound s"
  "sent (outbound (send_outbound f s)) = sent (outbound s) @ [f]"
  "closed (outbound (send_outbound f s)) = closed (outbound s)"
  "inbound_components (send_outbound f s) = inbound_components s"
  "messages (send_outbound f s) = messages s"
  "logged (send_outbound f s) = logged s"
  by (simp_all add: send_outbound_def send_multipart_def)

lemma send_inbound_fields [simp]:
  "ledger (send_inbound f s) = ledger s"
  "buffer (send_inbound f s) = buffer s"
  "poller (send_inbound f s) = poller s"
  "available_outbound (send_inbound f s) = available_outbound s"
  "outbound (send_inbound f s) = outbound s"
  "sent (inbound (send_inbound f s)) = sent (inbound s) @ [f]"
  "closed (inbound (send_inbound f s)) = closed (inbound s)"
  "inbound_components (send_inbound f s) = inbound_components s"
  "messages (send_inbound f s) = messages s"
  "logged (send_inbound f s) = logged s"
  by (simp_all add: send_inbound_def send_multipart_def)

lemma poller_register_fields [simp]:
  "ledger (poller_register k s) = ledger s"
  "buffer (poller_register k s) = buffer s"
  "poller (poller_register k s) = insert k (poller s)"
  "available_outbound (poller_register k s) = available_outbound s"
  "inbound (poller_register k s) = inbound s"
  "outbound (poller_register k s) = outbound s"
  "inbound_components (poller_register k s) = inbound_components s"
  "messages (poller_register k s) = messages s"
  "logged (poller_register k s) = logged s"
  by (simp_all add: poller_register_def)

lemma poller_unregister_Inr:
  "poller_unregister k s = Inr s' \<longleftrightarrow> k \<in> poller s \<and> s' = s\<lparr>poller := poller s - {k}\<rparr>"
  by (auto simp: poller_unregister_def)

lemma poller_unregister_registered:
  "k \<in> poller s \<Longrightarrow> poller_unregister k s = Inr (s\<lparr>poller := poller s - {k}\<rparr>)"
  by (simp add: poller_unregister_def)

lemma delete_absent: "map_of al k = None \<Longrightarrow> AList.delete k al = al"
  by (induction al) (auto split: if_splits)

lemma drain_or_available_fields [simp]:
  "ledger (drain_or_available w e s) = ledger s"
  "poller (drain_or_available w e s) = poller s"
  "inbound (drain_or_available w e s) = inbound s"
  "inbound_components (drain_or_available w e s) = inbound_components s"
  "messages (drain_or_available w e s) = messages s"
  "closed (outbound (drain_or_available w e s)) = closed (outbound s)"
  "buffer (drain_or_available w e s) = AList.delete w (buffer s)"
  "available_outbound (drain_or_available w e s) =
     (if map_of (buffer s) w = None then available_outbound s @ [w] else available_outbound s)"
  "sent (outbound (drain_or_available w e s)) =
     (case map_of (buffer s) w of
        None \<Rightarrow> sent (outbound s)
      | Some message_data \<Rightarrow> sent (outbound s) @ [[w, e, message_data]])"
  by (simp_all add: drain_or_available_def delete_absent split: option.splits)

lemma unblock_pending_fields [simp]:
  "ledger (unblock_pending bm e s) = AList.delete (key bm) (ledger s)"
  "poller (unblock_pending bm e s) = poller s"
  "buffer (unblock_pending bm e s) = buffer s"
  "outbound (unblock_pending bm e s) = outbound s"
  "inbound_components (unblock_pending bm e s) = inbound_components s"
  "messages (unblock_pending bm e s) = messages s"
  "closed (inbound (unblock_pending bm e s)) = closed (inbound s)"
  "available_outbound (unblock_pending bm e s) = available_outbound s"
  "sent (inbound (unblock_pending bm e s)) =
     (case map_of (ledger s) (key bm) of
        None \<Rightarrow> sent (inbound s)
      | Some component \<Rightarrow> sent (inbound s) @ [[component, e, payload bm]])"
  by (simp_all add: unblock_pending_def delete_absent split: option.splits)

lemma reenable_inbound_fields [simp]:
  "ledger (reenable_inbound s) = ledger s"
  "buffer (reenable_inbound s) = buffer s"
  "inbound (reenable_inbound s) = inbound s"
  "outbound (reenable_inbound s) = outbound s"
  "inbound_components (reenable_inbound s) = inbound_components s"
  "messages (reenable_inbound s) = messages s"
  "available_outbound (reenable_inbound s) = available_outbound s"
  "logged (reenable_inbound s) = logged s"
  "poller (reenable_inbound s) =
     (if available_outbound s \<noteq> [] \<and> buffer s = [] \<and> ledger s = []
      then insert Inbound (poller s) else poller s)"
  by (simp_all add: reenable_inbound_def)

lemma outbound_event_Inr:
  "outbound_event c frames s = Inr s' \<longleftrightarrow>
     (\<exists>w e f bm. frames = [w, e, f] \<and> ParseFromString c f = Some bm \<and>
        s' = reenable_inbound (unblock_pending bm e (drain_or_available w e
               (logmsg Debug ''Handling outbound event: {}'' s))))"
  by (auto simp: outbound_event_def split: list.splits option.splits)

section \<open>The gate on the inbound side\<close>

lemma outbound_event_gate:
  "outbound_event c frames s = Inr s' \<Longrightarrow> gate s \<Longrightarrow> gate s'"
  by (auto simp: outbound_event_Inr gate_def)

lemma inbound_event_gate:
  "inbound_event c frames s = Inr s' \<Longrightarrow> gate s \<Longrightarrow> gate s'"
  unfolding inbound_event_def dispatch_def to_buffer_def gate_def Let_def
  by (auto simp: poller_unregister_Inr split: list.splits option.splits if_splits)

lemma iteration_Inr:
  "iteration c i s = Some (Inr s') \<longleftrightarrow>
     (\<exists>t. s' = logmsg Debug ''Finished event cycle.'' t \<and>
        (case polled Outbound s (out_ready i) of
           Some frames \<Rightarrow> outbound_event c frames (logmsg Debug ''Event {}'' s) = Inr t
         | None \<Rightarrow>
            (case polled Inbound s (in_ready i) of
               Some frames \<Rightarrow> inbound_event c frames (logmsg Debug ''Event {}'' s) = Inr t
             | None \<Rightarrow> False)))"
  by (auto simp: iteration_def poll_def handle_event_def polled_def Let_def
      split: option.splits sum.splits)

lemma gate_logmsg [simp]: "gate (logmsg lv m s) = gate s"
  by (simp add: gate_def)

lemma iteration_gate:
  assumes "iteration c i s = Some (Inr s')" and "gate s"
  shows "gate s'"
proof -
  have g: "gate (logmsg Debug ''Event {}'' s)"
    using assms(2) by simp
  from assms(1) show ?thesis
    using outbound_event_gate [OF _ g] inbound_event_gate [OF _ g] g
    by (auto simp: iteration_Inr split: option.splits)
qed

lemma event_loop_gate:
  "event_loop c n ins s = Returned s' \<Longrightarrow> gate s \<Longrightarrow> gate s'"
proof (induction c n ins s rule: event_loop.induct)
  case (3 c n i ins s)
  then show ?case
    by (auto split: option.splits sum.splits prod.splits dest: iteration_gate)
qed simp_all

lemma unstarted_gate: "unstarted b \<Longrightarrow> gate (launch b)"
  by (simp add: unstarted_def gate_def launch_def)

lemma returned_final: "returned out \<Longrightarrow> out = Returned (final out)"
  by (cases out) simp_all

lemma inbound_event_frame:
  "inbound_event c [w, e, m] s =
     (case ParseFromString c m of
        None \<Rightarrow> Inl (DecodeError, logmsg Debug ''Handling inbound event'' s)
      | Some bm \<Rightarrow>
          (case map_of (inbound_components s) w of
             None \<Rightarrow> Inl (KeyError, logmsg Debug ''Handling inbound event'' s)
           | Some reg \<Rightarrow>
               if route reg = []
               then Inr (send_inbound [w, e, ''1'']
                           (logmsg Debug ''Message back to {}''
                             (logmsg Debug ''Handling inbound event'' s)))
               else if route reg \<in> set (available_outbound s)
               then dispatch c w e bm (route reg) (block reg)
                      (logmsg Debug ''Handling inbound event'' s)
               else to_buffer c bm (route reg) (logmsg Debug ''Handling inbound event'' s)))"
  by (simp add: inbound_event_def Let_def split: option.splits)

lemma iteration_inbound:
  assumes "polled Outbound s (out_ready i) = None"
    and "polled Inbound s (in_ready i) = Some frames"
  shows "iteration c i s =
     Some (case inbound_event c frames (logmsg Debug ''Event {}'' s) of
             Inl e \<Rightarrow> Inl e
           | Inr s' \<Rightarrow> Inr (logmsg Debug ''Finished event cycle.'' s'))"
  using assms by (simp add: iteration_def poll_def handle_event_def Let_def)

lemma iteration_outbound:
  assumes "polled Outbound s (out_ready i) = Some frames"
  shows "iteration c i s =
     Some (case outbound_event c frames (logmsg Debug ''Event {}'' s) of
             Inl e \<Rightarrow> Inl e
           | Inr s' \<Rightarrow> Inr (logmsg Debug ''Finished event cycle.'' s'))"
  using assms by (simp add: iteration_def poll_def handle_event_def Let_def)

text \<open>While no registered socket is ready the poll does not return; when it returns, its
  event names a socket, so the last branch of the loop body is never taken.\<close>

lemma iteration_waits:
  "iteration c i s = None \<longleftrightarrow>
     polled Outbound s (out_ready i) = None \<and> polled Inbound s (in_ready i) = None"
  by (auto simp: iteration_def poll_def split: option.splits)

lemma poll_names_a_socket: "poll s i = Some event \<Longrightarrow> fst event \<noteq> None \<or> snd event \<noteq> None"
  by (auto simp: poll_def split: option.splits)

lemma polled_registered: "polled k s ready = Some frames \<Longrightarrow> k \<in> poller s"
  by (simp add: polled_def split: if_splits)

lemma dispatch_blocking:
  assumes "Inbound \<in> poller s"
  shows "dispatch c w e bm r True s =
     Inr ((logmsg Debug ''Inbound waiting for feedback: {}''
            (send_outbound [r, e, SerializeToString c bm]
              (logmsg Debug ''Broker routing to {}'' s)))
          \<lparr>available_outbound := remove1 r (available_outbound s),
            ledger := AList.update (key bm) w (ledger s),
            poller := poller s - {Inbound}\<rparr>)"
  using assms
  by (simp add: dispatch_def Let_def poller_unregister_def logmsg_def send_outbound_def)

lemma to_buffer_registered:
  assumes "Inbound \<in> poller s"
  shows "to_buffer c bm r s =
     Inr ((logmsg Info ''Sent to buffer.'' s)
          \<lparr>buffer := AList.update r (SerializeToString c bm) (buffer s),
            poller := poller s - {Inbound}\<rparr>)"
  using assms by (simp add: to_buffer_def poller_unregister_def logmsg_def)

section \<open>C1: the inbound side is suspended while anything is pending\<close>

text \<open>
  C1. In every state that the loop of \<open>start\<close> reaches between two iterations, a
  non-empty ledger or buffer means that the inbound socket is not registered with the
  poller. An iteration that handles an inbound message by a blocking dispatch or by
  buffering it leaves the inbound socket unregistered. An iteration that handles an
  outbound event registers the inbound socket exactly when, after the event, the
  available list is non-empty and buffer and ledger are empty; and then the inbound
  socket is registered if and only if that condition holds.
\<close>

theorem inbound_suspended_while_pending:
  assumes "unstarted b" and "event_loop c n ins (launch b) = Returned s"
  shows "(ledger s \<noteq> [] \<or> buffer s \<noteq> [] \<longrightarrow> Inbound \<notin> poller s) \<and>
    (\<forall>i s' component emp message_data reg.
       iteration c i s = Some (Inr s') \<and> polled Outbound s (out_ready i) = None \<and>
       polled Inbound s (in_ready i) = Some [component, emp, message_data] \<and>
       map_of (inbound_components s) component = Some reg \<and> route reg \<noteq> [] \<and>
       (route reg \<in> set (available_outbound s) \<longrightarrow> block reg)
       \<longrightarrow> Inbound \<notin> poller s') \<and>
    (\<forall>i s' frames.
       iteration c i s = Some (Inr s') \<and> polled Outbound s (out_ready i) = Some frames
       \<longrightarrow> poller s' =
             (if available_outbound s' \<noteq> [] \<and> buffer s' = [] \<and> ledger s' = []
              then insert Inbound (poller s) else poller s) \<and>
           (Inbound \<in> poller s' \<longleftrightarrow>
              available_outbound s' \<noteq> [] \<and> buffer s' = [] \<and> ledger s' = []))"
proof (intro conjI allI impI)
  have g: "gate s"
    using event_loop_gate [OF assms(2)] unstarted_gate [OF assms(1)] .
  show "Inbound \<notin> poller s" if "ledger s \<noteq> [] \<or> buffer s \<noteq> []"
    using g that by (simp add: gate_def)
  show "Inbound \<notin> poller s'"
    if h: "iteration c i s = Some (Inr s') \<and> polled Outbound s (out_ready i) = None \<and>
       polled Inbound s (in_ready i) = Some [component, emp, message_data] \<and>
       map_of (inbound_components s) component = Some reg \<and> route reg \<noteq> [] \<and>
       (route reg \<in> set (available_outbound s) \<longrightarrow> block reg)"
    for i s' component emp message_data reg
  proof -
    have reg: "Inbound \<in> poller s" using h polled_registered by blast
    from h show ?thesis
      by (auto simp: iteration_inbound inbound_event_frame dispatch_blocking
          to_buffer_registered reg split: option.splits sum.splits if_splits)
  qed
  fix i s' frames
  assume h: "iteration c i s = Some (Inr s') \<and> polled Outbound s (out_ready i) = Some frames"
  then obtain t where t: "outbound_event c frames (logmsg Debug ''Event {}'' s) = Inr t"
    and s': "s' = logmsg Debug ''Finished event cycle.'' t"
    by (auto simp: iteration_outbound split: sum.splits)
  from t show "poller s' =
             (if available_outbound s' \<noteq> [] \<and> buffer s' = [] \<and> ledger s' = []
              then insert Inbound (poller s) else poller s)"
    unfolding s' by (auto simp: outbound_event_Inr)
  from t g show "Inbound \<in> poller s' \<longleftrightarrow>
              available_outbound s' \<noteq> [] \<and> buffer s' = [] \<and> ledger s' = []"
    unfolding s' by (auto simp: outbound_event_Inr gate_def split: if_splits)
qed

theorem inbound_suspended_while_pending_witness:
  "unstarted (test_broker 20) \<and>
   returned (event_loop wire 2
      [worker_ready, ev_in [''inbound1'', [], msg ''k0'' ''0'']] (launch (test_broker 20))) \<and>
   ledger (final (event_loop wire 2
      [worker_ready, ev_in [''inbound1'', [], msg ''k0'' ''0'']] (launch (test_broker 20)))) \<noteq> [] \<and>
   Inbound \<notin> poller (final (event_loop wire 2
      [worker_ready, ev_in [''inbound1'', [], msg ''k0'' ''0'']] (launch (test_broker 20))))"
proof -
  let ?out = "event_loop wire 2
      [worker_ready, ev_in [''inbound1'', [], msg ''k0'' ''0'']] (launch (test_broker 20))"
  have u: "unstarted (test_broker 20)" by code_simp
  have r: "returned ?out" by code_simp
  have l: "ledger (final ?out) \<noteq> []" by code_simp
  from inbound_suspended_while_pending [OF u returned_final [OF r]] l
  have "Inbound \<notin> poller (final ?out)" by blast
  with u r l show ?thesis by blast
qed

section \<open>C2: feedback from a worker\<close>

text \<open>What one outbound event does to the broker, field by field.\<close>

lemma outbound_event_effect:
  assumes "ParseFromString c feedback = Some f"
  shows "\<exists>s'. outbound_event c [w, emp, feedback] s = Inr s' \<and>
    buffer s' = AList.delete w (buffer s) \<and>
    ledger s' = AList.delete (key f) (ledger s) \<and>
    available_outbound s' =
      (if map_of (buffer s) w = None then available_outbound s @ [w] else available_outbound s) \<and>
    sent (outbound s') =
      (case map_of (buffer s) w of
         None \<Rightarrow> sent (outbound s)
       | Some message_data \<Rightarrow> sent (outbound s) @ [[w, emp, message_data]]) \<and>
    sent (inbound s') =
      (case map_of (ledger s) (key f) of
         None \<Rightarrow> sent (inbound s)
       | Some component \<Rightarrow> sent (inbound s) @ [[component, emp, payload f]])"
  using assms by (simp add: outbound_event_def split: option.splits)

text \<open>
  C2. A blocking producer is to receive exactly one reply per request, matched by key.
  In the run \<open>buffered_run\<close>, in the setting of \<open>test_feedback\<close>, the request \<open>k0\<close>
  of the blocking producer \<open>inbound1\<close> arrives while the worker is busy, is buffered,
  is sent to the worker when the worker's feedback for the earlier request \<open>k1\<close>
  comes in, and is answered by the worker with a feedback of key \<open>k0\<close>. The loop returns
  after these five iterations with ledger and buffer empty and the worker available, and
  the only message ever sent on the inbound socket is the acknowledgement to
  \<open>inbound2\<close>: the blocking producer has received no reply to its request.
\<close>

theorem buffered_blocking_request_unanswered:
  "returned (start wire buffered_run (test_broker 5)) \<and>
   sent (inbound (final (start wire buffered_run (test_broker 5)))) =
     [[''inbound2'', [], ''1'']] \<and>
   sent (outbound (final (start wire buffered_run (test_broker 5)))) =
     [[''outbound'', [], msg ''k1'' ''1''], [''outbound'', [], msg ''k0'' ''0'']] \<and>
   ledger (final (start wire buffered_run (test_broker 5))) = [] \<and>
   buffer (final (start wire buffered_run (test_broker 5))) = [] \<and>
   available_outbound (final (start wire buffered_run (test_broker 5))) = [''outbound'']"
  by code_simp

section \<open>C3: a blocking producer whose worker is available\<close>

text \<open>
  C3. An iteration that handles an inbound message (no outbound event was polled) whose
  sender is registered with a non-empty route that is in the available list and with
  \<open>block = True\<close> returns normally; it removes the first occurrence of the worker from
  the available list, sends it the parsed envelope serialised again, stores the sender's
  identity in the ledger under the envelope's key, sends nothing on the inbound socket,
  and unregisters the inbound socket from the poller. The buffer is untouched.
\<close>

theorem blocking_dispatch:
  assumes "polled Outbound s (out_ready i) = None"
    and "polled Inbound s (in_ready i) = Some [component, emp, message_data]"
    and "ParseFromString c message_data = Some broker_message"
    and "map_of (inbound_components s) component = Some reg"
    and "route reg \<noteq> []"
    and "route reg \<in> set (available_outbound s)"
    and "block reg"
  shows "\<exists>s'. iteration c i s = Some (Inr s') \<and>
    available_outbound s' = remove1 (route reg) (available_outbound s) \<and>
    sent (outbound s') =
      sent (outbound s) @ [[route reg, emp, SerializeToString c broker_message]] \<and>
    ledger s' = AList.update (key broker_message) component (ledger s) \<and>
    sent (inbound s') = sent (inbound s) \<and>
    poller s' = poller s - {Inbound} \<and>
    buffer s' = buffer s"
proof -
  have reg: "Inbound \<in> poller s"
    using assms(2) by (rule polled_registered)
  show ?thesis
    using assms(3-7) reg
    by (simp add: iteration_inbound [OF assms(1,2)] inbound_event_frame dispatch_blocking)
qed

theorem blocking_dispatch_witness:
  "polled Outbound listening (out_ready (ev_in [''inbound1'', [], msg ''k0'' ''0''])) = None \<and>
   polled Inbound listening (in_ready (ev_in [''inbound1'', [], msg ''k0'' ''0''])) =
       Some [''inbound1'', [], msg ''k0'' ''0''] \<and>
   ParseFromString wire (msg ''k0'' ''0'') = Some \<lparr>key = ''k0'', payload = ''0''\<rparr> \<and>
   map_of (inbound_components listening) ''inbound1'' =
       Some \<lparr>route = ''outbound'', block = True, log_text = ''inbound1''\<rparr> \<and>
   ''outbound'' \<in> set (available_outbound listening) \<and>
   (\<exists>s'. iteration wire (ev_in [''inbound1'', [], msg ''k0'' ''0'']) listening = Some (Inr s') \<and>
     available_outbound s' = [] \<and>
     sent (outbound s') = [[''outbound'', [], msg ''k0'' ''0'']] \<and>
     ledger s' = [(''k0'', ''inbound1'')] \<and>
     sent (inbound s') = [] \<and>
     poller s' = {Outbound})"
proof -
  let ?i = "ev_in [''inbound1'', [], msg ''k0'' ''0'']"
  let ?reg = "\<lparr>route = ''outbound'', block = True, log_text = ''inbound1''\<rparr>"
  let ?bm = "\<lparr>key = ''k0'', payload = ''0''\<rparr>"
  have h1: "polled Outbound listening (out_ready ?i) = None" by code_simp
  have h2: "polled Inbound listening (in_ready ?i) = Some [''inbound1'', [], msg ''k0'' ''0'']"
    by code_simp
  have h3: "ParseFromString wire (msg ''k0'' ''0'') = Some ?bm" by code_simp
  have h4: "map_of (inbound_components listening) ''inbound1'' = Some ?reg" by code_simp
  have h5: "route ?reg \<noteq> []" by simp
  have h6': "''outbound'' \<in> set (available_outbound listening)" by code_simp
  then have h6: "route ?reg \<in> set (available_outbound listening)" by simp
  have h7: "block ?reg" by simp
  have e1: "remove1 (route ?reg) (available_outbound listening) = []" by code_simp
  have e2: "sent (outbound listening) @ [[route ?reg, [], SerializeToString wire ?bm]] =
              [[''outbound'', [], msg ''k0'' ''0'']]" by code_simp
  have e3: "AList.update (key ?bm) ''inbound1'' (ledger listening) = [(''k0'', ''inbound1'')]"
    by code_simp
  have e4: "sent (inbound listening) = []" by code_simp
  have e5: "poller listening - {Inbound} = {Outbound}" by code_simp
  from blocking_dispatch [OF h1 h2 h3 h4 h5 h6 h7]
  obtain s' where "iteration wire ?i listening = Some (Inr s')"
    and "available_outbound s' = remove1 (route ?reg) (available_outbound listening)"
    and "sent (outbound s') =
           sent (outbound listening) @ [[route ?reg, [], SerializeToString wire ?bm]]"
    and "ledger s' = AList.update (key ?bm) ''inbound1'' (ledger listening)"
    and "sent (inbound s') = sent (inbound listening)"
    and "poller s' = poller listening - {Inbound}"
    by blast
  then have "iteration wire ?i listening = Some (Inr s') \<and>
     available_outbound s' = [] \<and>
     sent (outbound s') = [[''outbound'', [], msg ''k0'' ''0'']] \<and>
     ledger s' = [(''k0'', ''inbound1'')] \<and>
     sent (inbound s') = [] \<and>
     poller s' = {Outbound}"
    unfolding e1 e2 e3 e4 e5 by blast
  then show ?thesis using h1 h2 h3 h4 h6' by blast
qed

section \<open>C4: a second message for an occupied buffer slot\<close>




section \<open>C8: the end of the loop\<close>

lemma cycles_logmsg [simp]:
  "cycles (logmsg lv m s) =
     (if lv = Debug \<and> m = ''Finished event cycle.'' then Suc (cycles s) else cycles s)"
  by (simp add: cycles_def)

lemma cycles_ops [simp]:
  "cycles (send_outbound f s) = cycles s"
  "cycles (send_inbound f s) = cycles s"
  "cycles (poller_register k s) = cycles s"
  "cycles (reenable_inbound s) = cycles s"
  "cycles (drain_or_available w e s) = cycles s"
  "cycles (unblock_pending bm e s) = cycles s"
  by (simp_all add: cycles_def drain_or_available_def unblock_pending_def
      split: option.splits)

lemma logged_launch [simp]:
  "cycles (launch s) = cycles s"
  "inbound_components (launch s) = inbound_components s"
  "messages (launch s) = messages s"
  "inbound (launch s) = inbound s"
  "outbound (launch s) = outbound s"
  "poller (launch s) = poller s"
  by (simp_all add: launch_def cycles_def logmsg_def)

lemma outbound_event_kept:
  "outbound_event c frames s = Inr s' \<Longrightarrow>
     kept s s' \<and> cycles s' = cycles s \<and> (Outbound \<in> poller s \<longrightarrow> Outbound \<in> poller s')"
  by (auto simp: outbound_event_Inr kept_def)

lemma inbound_event_kept:
  "inbound_event c frames s = Inr s' \<Longrightarrow>
     kept s s' \<and> cycles s' = cycles s \<and> (Outbound \<in> poller s \<longrightarrow> Outbound \<in> poller s')"
  unfolding inbound_event_def dispatch_def to_buffer_def Let_def kept_def
  by (auto simp: poller_unregister_Inr cycles_def split: list.splits option.splits if_splits)

lemma iteration_kept:
  "iteration c i s = Some (Inr s') \<Longrightarrow>
     kept s s' \<and> cycles s' = Suc (cycles s) \<and> (Outbound \<in> poller s \<longrightarrow> Outbound \<in> poller s')"
  by (auto simp: iteration_Inr kept_def split: option.splits
      dest!: outbound_event_kept inbound_event_kept)

text \<open>An iteration on a well-formed poll result does not raise.\<close>

lemma iteration_total:
  assumes "input_ok c s i"
  shows "iteration c i s = None \<or> (\<exists>s'. iteration c i s = Some (Inr s'))"
proof (cases "polled Outbound s (out_ready i)")
  case (Some frames)
  then have "out_ready i = Some frames"
    by (simp add: polled_def split: if_splits)
  with assms obtain w e f bm where "frames = [w, e, f]" "ParseFromString c f = Some bm"
    by (auto simp: input_ok_def frames_ok_def split: list.splits)
  then show ?thesis
    by (simp add: iteration_outbound [OF Some] outbound_event_def)
next
  case None
  show ?thesis
  proof (cases "polled Inbound s (in_ready i)")
    case inNone: None
    with None show ?thesis by (simp add: iteration_waits)
  next
    case (Some frames)
    then have r: "in_ready i = Some frames" and reg: "Inbound \<in> poller s"
      by (simp_all add: polled_def split: if_splits)
    with assms obtain w e m bm rg where "frames = [w, e, m]"
      "ParseFromString c m = Some bm" "map_of (inbound_components s) w = Some rg"
      by (auto simp: input_ok_def frames_ok_def split: list.splits)
    then show ?thesis
      using reg
      by (simp add: iteration_inbound [OF None Some] inbound_event_frame
            to_buffer_registered dispatch_def poller_unregister_def Let_def)
  qed
qed

lemma iteration_outbound_waiting:
  "outbound_waiting i \<Longrightarrow> Outbound \<in> poller s \<Longrightarrow> iteration c i s \<noteq> None"
  by (auto simp: iteration_waits outbound_waiting_def polled_def)

lemma input_ok_kept: "kept s s' \<Longrightarrow> input_ok c s' i = input_ok c s i"
  by (simp add: input_ok_def kept_def)

text \<open>However the loop ends, it has completed no more iterations than asked for, and all
  of them exactly when it returns.\<close>

lemma event_loop_counts:
  "(event_loop c n ins s = Returned s' \<longrightarrow> kept s s' \<and> cycles s' = cycles s + n) \<and>
   (event_loop c n ins s = Blocked s' \<longrightarrow> cycles s' < cycles s + n)"
proof (induction c n ins s rule: event_loop.induct)
  case (1 c ins s)
  then show ?case by (simp add: kept_def)
next
  case (2 c n s)
  then show ?case by simp
next
  case (3 c n i ins s)
  show ?case
  proof (cases "iteration c i s")
    case None
    with "3.IH"(1) show ?thesis by simp
  next
    case (Some res)
    show ?thesis
    proof (cases res)
      case (Inl e)
      with Some show ?thesis by (simp split: prod.splits)
    next
      case (Inr t)
      with Some have k: "kept s t" and cy: "cycles t = Suc (cycles s)"
        using iteration_kept by blast+
      from "3.IH"(2) [OF Some Inr] k cy Some Inr show ?thesis
        by (auto simp: kept_def)
    qed
  qed
qed

text \<open>With well-formed poll results, of which enough have a worker message waiting, the
  loop returns.\<close>

lemma event_loop_returns:
  assumes "Outbound \<in> poller s"
    and "\<forall>i \<in> set ins. input_ok c s i"
    and "n \<le> length (filter outbound_waiting ins)"
  shows "returned (event_loop c n ins s)"
  using assms
proof (induction c n ins s rule: event_loop.induct)
  case (1 c ins s)
  then show ?case by simp
next
  case (2 c n s)
  then show ?case by simp
next
  case (3 c n i ins s)
  have ok: "input_ok c s i" using "3.prems"(2) by simp
  show ?case
  proof (cases "iteration c i s")
    case None
    then have "\<not> outbound_waiting i"
      using iteration_outbound_waiting "3.prems"(1) by blast
    with "3.prems" have "Suc n \<le> length (filter outbound_waiting ins)" by simp
    with "3.IH"(1) [OF None "3.prems"(1)] "3.prems"(2) None show ?thesis by simp
  next
    case (Some res)
    with iteration_total [OF ok] obtain t where t: "res = Inr t" by auto
    with Some have k: "kept s t" and o: "Outbound \<in> poller t"
      using iteration_kept "3.prems"(1) by blast+
    have oks: "\<forall>j \<in> set ins. input_ok c t j"
      using "3.prems"(2) k by (simp add: input_ok_kept)
    have "n \<le> length (filter outbound_waiting ins)"
      using "3.prems"(3) by (simp split: if_splits)
    with "3.IH"(2) [OF Some t o oks] Some t show ?thesis by simp
  qed
qed

text \<open>
  C8, as stated, fails: a run of one iteration returns with both sockets still open.
  Nothing in \<open>Broker\<close> closes a socket.
\<close>

theorem broker_closes_nothing_counterexample:
  "returned (start wire [worker_ready] (test_broker 1)) \<and>
   cycles (final (start wire [worker_ready] (test_broker 1))) = 1 \<and>
   \<not> closed (inbound (final (start wire [worker_ready] (test_broker 1)))) \<and>
   \<not> closed (outbound (final (start wire [worker_ready] (test_broker 1))))"
  by code_simp

text \<open>
  C8, amended. An iteration is completed only for a poll that returns; while no
  registered socket is ready the loop waits. Whenever \<open>start\<close> returns, it has completed
  exactly \<open>messages\<close> iterations (none for a negative number) and the sockets are as
  open or closed as they were before; when it waits for ever it has completed fewer. It
  does return when the broker has not been started before, every poll result is one that
  no branch rejects (three frames, a payload that parses, a registered inbound sender),
  and at least \<open>messages\<close> of them have a worker message waiting.
\<close>

theorem start_runs_messages_iterations:
  "(\<forall>s. start c ins b = Returned s \<longrightarrow>
      cycles s = cycles b + nat (messages b) \<and>
      closed (inbound s) = closed (inbound b) \<and>
      closed (outbound s) = closed (outbound b)) \<and>
   (\<forall>s. start c ins b = Blocked s \<longrightarrow> cycles s < cycles b + nat (messages b)) \<and>
   (unstarted b \<and> (\<forall>i \<in> set ins. input_ok c b i) \<and>
    nat (messages b) \<le> length (filter outbound_waiting ins) \<longrightarrow>
      returned (start c ins b))"
proof -
  note counts = event_loop_counts [of c "nat (messages b)" ins "launch b"]
  have p1: "cycles s = cycles b + nat (messages b) \<and>
      closed (inbound s) = closed (inbound b) \<and>
      closed (outbound s) = closed (outbound b)" if "start c ins b = Returned s" for s
  proof -
    from that have "kept (launch b) s \<and> cycles s = cycles (launch b) + nat (messages b)"
      using counts [of s] by (simp add: start_def)
    then show ?thesis by (simp add: kept_def)
  qed
  have p2: "cycles s < cycles b + nat (messages b)" if "start c ins b = Blocked s" for s
    using that counts [of s] by (simp add: start_def)
  have p3: "returned (start c ins b)"
    if a: "unstarted b \<and> (\<forall>i \<in> set ins. input_ok c b i) \<and>
      nat (messages b) \<le> length (filter outbound_waiting ins)"
  proof -
    have "kept b (launch b)" by (simp add: kept_def)
    then have oks: "\<forall>i \<in> set ins. input_ok c (launch b) i"
      using a by (simp add: input_ok_kept)
    have o: "Outbound \<in> poller (launch b)"
      using a by (simp add: unstarted_def)
    from event_loop_returns [OF o oks] a show ?thesis
      by (simp add: start_def)
  qed
  from p1 p2 p3 show ?thesis by blast
qed

theorem start_runs_messages_iterations_witness:
  "unstarted (test_broker 2) \<and>
   input_ok wire (test_broker 2) worker_ready \<and>
   input_ok wire (test_broker 2) (ev_in [''inbound2'', [], msg ''k1'' ''1'']) \<and>
   input_ok wire (test_broker 2) (ev_out [''outbound'', [], msg ''k1'' ''1'']) \<and>
   nat (messages (test_broker 2)) \<le>
     length (filter outbound_waiting
       [worker_ready, ev_in [''inbound2'', [], msg ''k1'' ''1''],
        ev_out [''outbound'', [], msg ''k1'' ''1'']]) \<and>
   returned (start wire
       [worker_ready, ev_in [''inbound2'', [], msg ''k1'' ''1''],
        ev_out [''outbound'', [], msg ''k1'' ''1'']] (test_broker 2)) \<and>
   cycles (final (start wire
       [worker_ready, ev_in [''inbound2'', [], msg ''k1'' ''1''],
        ev_out [''outbound'', [], msg ''k1'' ''1'']] (test_broker 2))) = 2 \<and>
   \<not> closed (inbound (final (start wire
       [worker_ready, ev_in [''inbound2'', [], msg ''k1'' ''1''],
        ev_out [''outbound'', [], msg ''k1'' ''1'']] (test_broker 2)))) \<and>
   start wire [ev_in [''inbound2'', [], msg ''k1'' ''1'']] (test_broker 1) =
     Blocked (launch (test_broker 1)) \<and>
   cycles (launch (test_broker 1)) = 0"
proof -
  let ?ins = "[worker_ready, ev_in [''inbound2'', [], msg ''k1'' ''1''],
        ev_out [''outbound'', [], msg ''k1'' ''1'']]"
  let ?b = "test_broker 2"
  have u: "unstarted ?b" by code_simp
  have h1: "\<forall>i \<in> set ?ins. input_ok wire ?b i" by code_simp
  have h2: "nat (messages ?b) \<le> length (filter outbound_waiting ?ins)" by code_simp
  have e1: "cycles ?b + nat (messages ?b) = 2" by code_simp
  have e2: "closed (inbound ?b) = False" by code_simp
  note t = start_runs_messages_iterations [of wire ?ins ?b]
  from t u h1 h2 have r: "returned (start wire ?ins ?b)" by blast
  then have "start wire ?ins ?b = Returned (final (start wire ?ins ?b))"
    by (rule returned_final)
  with t have "cycles (final (start wire ?ins ?b)) = cycles ?b + nat (messages ?b) \<and>
      closed (inbound (final (start wire ?ins ?b))) = closed (inbound ?b)"
    by blast
  then have c: "cycles (final (start wire ?ins ?b)) = 2 \<and>
      \<not> closed (inbound (final (start wire ?ins ?b)))"
    unfolding e1 e2 by simp
  have oks: "input_ok wire ?b worker_ready \<and>
    input_ok wire ?b (ev_in [''inbound2'', [], msg ''k1'' ''1'']) \<and>
    input_ok wire ?b (ev_out [''outbound'', [], msg ''k1'' ''1''])" by code_simp
  let ?w = "start wire [ev_in [''inbound2'', [], msg ''k1'' ''1'']] (test_broker 1)"
  have bl: "?w = Blocked (launch (test_broker 1))" by code_simp
  have "cycles (launch (test_broker 1)) <
      cycles (test_broker 1) + nat (messages (test_broker 1))"
    using start_runs_messages_iterations
      [of wire "[ev_in [''inbound2'', [], msg ''k1'' ''1'']]" "test_broker 1"] bl
    by blast
  moreover have "cycles (test_broker 1) + nat (messages (test_broker 1)) = 1" by code_simp
  ultimately have z: "cycles (launch (test_broker 1)) = 0" by simp
  from u oks h2 r c bl z show ?thesis by blast
qed

section \<open>C9: an inbound message from an unregistered identity\<close>

text \<open>
  C9, as stated, fails: after the worker has announced itself, a message from the
  unregistered identity \<open>stranger\<close> makes \<open>start\<close> end with \<open>KeyError\<close>. Nothing is
  logged at critical level and the third poll result is never looked at: the log holds
  two iterations.
\<close>

theorem unknown_identity_counterexample:
  "raised (start wire
      [worker_ready,
       ev_in [''stranger'', [], msg ''k9'' ''9''],
       ev_in [''inbound2'', [], msg ''k1'' ''1'']] (test_broker 3)) = Some KeyError \<and>
   Critical \<notin> fst ` set (logged (final (start wire
      [worker_ready,
       ev_in [''stranger'', [], msg ''k9'' ''9''],
       ev_in [''inbound2'', [], msg ''k1'' ''1'']] (test_broker 3)))) \<and>
   count_list (logged (final (start wire
      [worker_ready,
       ev_in [''stranger'', [], msg ''k9'' ''9''],
       ev_in [''inbound2'', [], msg ''k1'' ''1'']] (test_broker 3)))) (Debug, ''Event {}'') = 2"
  by code_simp

text \<open>
  C9, amended. An iteration that handles an inbound message whose payload parses and
  whose sender is not in \<open>inbound_components\<close> raises \<open>KeyError\<close>, and the exception
  ends the loop, whatever polls would follow. Up to the raise the iteration has written
  two debug lines and has changed nothing else: nothing is sent, ledger, buffer, poller
  and available list are as before.
\<close>

theorem unknown_identity_raises:
  assumes "polled Outbound s (out_ready i) = None"
    and "polled Inbound s (in_ready i) = Some [component, emp, message_data]"
    and "ParseFromString c message_data = Some broker_message"
    and "map_of (inbound_components s) component = None"
  shows "iteration c i s =
      Some (Inl (KeyError,
        logmsg Debug ''Handling inbound event'' (logmsg Debug ''Event {}'' s))) \<and>
    event_loop c (Suc n) (i # ins) s =
      Raised KeyError (logmsg Debug ''Handling inbound event'' (logmsg Debug ''Event {}'' s))"
  using assms(3,4)
  by (simp add: iteration_inbound [OF assms(1,2)] inbound_event_frame)

theorem unknown_identity_raises_witness:
  "polled Outbound listening (out_ready (ev_in [''stranger'', [], msg ''k9'' ''9''])) = None \<and>
   polled Inbound listening (in_ready (ev_in [''stranger'', [], msg ''k9'' ''9''])) =
     Some [''stranger'', [], msg ''k9'' ''9''] \<and>
   ParseFromString wire (msg ''k9'' ''9'') = Some \<lparr>key = ''k9'', payload = ''9''\<rparr> \<and>
   map_of (inbound_components listening) ''stranger'' = None \<and>
   event_loop wire (Suc 1)
     [ev_in [''stranger'', [], msg ''k9'' ''9''], ev_in [''inbound2'', [], msg ''k1'' ''1'']]
     listening =
     Raised KeyError
       (logmsg Debug ''Handling inbound event'' (logmsg Debug ''Event {}'' listening))"
proof -
  let ?i = "ev_in [''stranger'', [], msg ''k9'' ''9'']"
  have h1: "polled Outbound listening (out_ready ?i) = None" by code_simp
  have h2: "polled Inbound listening (in_ready ?i) = Some [''stranger'', [], msg ''k9'' ''9'']"
    by code_simp
  have h3: "ParseFromString wire (msg ''k9'' ''9'') = Some \<lparr>key = ''k9'', payload = ''9''\<rparr>"
    by code_simp
  have h4: "map_of (inbound_components listening) ''stranger'' = None" by code_simp
  from unknown_identity_raises [OF h1 h2 h3 h4] h1 h2 h3 h4 show ?thesis by blast
qed

section \<open>C6: translating a request for the broker\<close>

lemma cache_get_set: "cache_get k (cache_set k v ch) = Some v"
  by (simp add: cache_get_def cache_set_def update_conv')

text \<open>
  C6. Every call of \<open>_translate_to_broker\<close> draws one new uuid and uses it as the key
  of the envelope it returns, so with a uuid source that never repeats the key differs
  from the key of every other call, earlier or later. A service that is not PALM always
  returns, with the raw message as the envelope's payload and the cache as it was. A
  PALM service whose message parses as a Client envelope returns with that envelope's
  payload as the Broker envelope's payload and the raw message stored in the cache under
  the key.
\<close>

theorem request_translation:
  "(\<not> palm s \<longrightarrow>
      translate_to_broker c pc uuids message_data s =
        Inr (SerializeToString c \<lparr>key = uuids (drawn s), payload = message_data\<rparr>,
             s\<lparr>drawn := Suc (drawn s)\<rparr>)) \<and>
   (palm s \<and> ParsePalm pc message_data = Some palm_message \<and> cache s = Some ch \<longrightarrow>
      translate_to_broker c pc uuids message_data s =
        Inr (SerializeToString c
               \<lparr>key = uuids (drawn s), payload = palm_payload palm_message\<rparr>,
             s\<lparr>drawn := Suc (drawn s),
               cache := Some (cache_set (uuids (drawn s)) message_data ch)\<rparr>) \<and>
      cache_get (uuids (drawn s)) (cache_set (uuids (drawn s)) message_data ch) =
        Some message_data) \<and>
   (\<forall>out s'. translate_to_broker c pc uuids message_data s = Inr (out, s') \<longrightarrow>
      drawn s' = Suc (drawn s) \<and>
      (\<exists>p. out = SerializeToString c \<lparr>key = uuids (drawn s), payload = p\<rparr>) \<and>
      (inj uuids \<longrightarrow> (\<forall>n. n \<noteq> drawn s \<longrightarrow> uuids n \<noteq> uuids (drawn s))))"
proof (intro conjI allI impI)
  show "translate_to_broker c pc uuids message_data s =
        Inr (SerializeToString c \<lparr>key = uuids (drawn s), payload = message_data\<rparr>,
             s\<lparr>drawn := Suc (drawn s)\<rparr>)" if "\<not> palm s"
    using that by (simp add: translate_to_broker_def Let_def)
next
  assume "palm s \<and> ParsePalm pc message_data = Some palm_message \<and> cache s = Some ch"
  then show "translate_to_broker c pc uuids message_data s =
        Inr (SerializeToString c
               \<lparr>key = uuids (drawn s), payload = palm_payload palm_message\<rparr>,
             s\<lparr>drawn := Suc (drawn s),
               cache := Some (cache_set (uuids (drawn s)) message_data ch)\<rparr>)"
    by (simp add: translate_to_broker_def Let_def)
next
  show "cache_get (uuids (drawn s)) (cache_set (uuids (drawn s)) message_data ch) =
        Some message_data"
    by (rule cache_get_set)
next
  fix out s'
  assume r: "translate_to_broker c pc uuids message_data s = Inr (out, s')"
  then show "drawn s' = Suc (drawn s)"
    by (auto simp: translate_to_broker_def Let_def split: if_splits option.splits)
  from r show "\<exists>p. out = SerializeToString c \<lparr>key = uuids (drawn s), payload = p\<rparr>"
    by (auto simp: translate_to_broker_def Let_def split: if_splits option.splits)
  show "uuids n \<noteq> uuids (drawn s)" if "inj uuids" "n \<noteq> drawn s" for n
    using that by (auto dest: injD)
qed

lemma inj_letters: "inj letters"
proof (rule injI)
  fix m n
  assume "letters m = letters n"
  then have "length (letters m) = length (letters n)" by simp
  then show "m = n" by (simp add: letters_def)
qed

theorem request_translation_witness:
  "\<not> palm binary_service \<and>
   translate_to_broker wire palm_wire letters ''raw'' binary_service =
     Inr (msg ''a'' ''raw'', binary_service\<lparr>drawn := 1\<rparr>) \<and>
   palm palm_service \<and> ParsePalm palm_wire (palm_serialize hello) = Some hello \<and>
   cache palm_service = Some [(''a'', palm_serialize hello)] \<and>
   translate_to_broker wire palm_wire letters (palm_serialize hello) palm_service =
     Inr (msg ''aa'' ''hello'',
          palm_service\<lparr>drawn := 2,
            cache := Some [(''a'', palm_serialize hello), (''aa'', palm_serialize hello)]\<rparr>) \<and>
   inj letters \<and> letters 0 \<noteq> letters (drawn palm_service)"
proof -
  have b: "\<not> palm binary_service" by code_simp
  have p: "palm palm_service \<and> ParsePalm palm_wire (palm_serialize hello) = Some hello \<and>
    cache palm_service = Some [(''a'', palm_serialize hello)]" by code_simp
  have e1: "SerializeToString wire \<lparr>key = letters (drawn binary_service), payload = ''raw''\<rparr> =
    msg ''a'' ''raw''" by code_simp
  have e2: "binary_service\<lparr>drawn := Suc (drawn binary_service)\<rparr> = binary_service\<lparr>drawn := 1\<rparr>"
    by code_simp
  have e3: "SerializeToString wire
      \<lparr>key = letters (drawn palm_service), payload = palm_payload hello\<rparr> =
    msg ''aa'' ''hello''" by code_simp
  have e4: "palm_service\<lparr>drawn := Suc (drawn palm_service),
      cache := Some (cache_set (letters (drawn palm_service)) (palm_serialize hello)
                      [(''a'', palm_serialize hello)])\<rparr> =
    palm_service\<lparr>drawn := 2,
      cache := Some [(''a'', palm_serialize hello), (''aa'', palm_serialize hello)]\<rparr>"
    by code_simp
  have d: "0 \<noteq> drawn palm_service" by code_simp
  note t1 = request_translation [of binary_service wire palm_wire letters "''raw''"]
  note t2 = request_translation [of palm_service wire palm_wire letters "palm_serialize hello"
      hello "[(''a'', palm_serialize hello)]"]
  have r1: "translate_to_broker wire palm_wire letters ''raw'' binary_service =
     Inr (msg ''a'' ''raw'', binary_service\<lparr>drawn := 1\<rparr>)"
    using t1 b unfolding e1 e2 by blast
  have r2: "translate_to_broker wire palm_wire letters (palm_serialize hello) palm_service =
     Inr (msg ''aa'' ''hello'',
          palm_service\<lparr>drawn := 2,
            cache := Some [(''a'', palm_serialize hello), (''aa'', palm_serialize hello)]\<rparr>)"
    using t2 p unfolding e3 e4 by blast
  have "letters 0 \<noteq> letters (drawn palm_service)"
    using t2 r2 inj_letters d by blast
  with b p r1 r2 inj_letters show ?thesis by blast
qed

section \<open>C5: translating the broker's response for the caller\<close>

text \<open>
  C5, as stated, fails: a PALM service that holds the Client envelope \<open>hello\<close> in its
  cache under the key \<open>a\<close> translates the broker's response with that key, and afterwards
  the cache still holds the entry.
\<close>

theorem cache_entry_kept_counterexample:
  "translate_from_broker wire palm_wire (msg ''a'' ''HELLO'') palm_service =
     Inr (palm_serialize (hello\<lparr>palm_payload := ''HELLO''\<rparr>), palm_service) \<and>
   cache_get ''a'' (the (cache palm_service)) = Some (palm_serialize hello)"
  by code_simp

text \<open>
  C5, amended. For a broker response that parses: a service that is not PALM returns
  exactly the response's payload. A PALM service whose cache holds, under the response's
  key, bytes that parse as a Client envelope returns that envelope serialised again with
  only its payload replaced by the response's payload: client, pipeline, function, stage
  and every further field are those of the cached envelope. In both cases the service
  and its cache are left as they were: the cache is read, and the entry stays.
\<close>

theorem reply_translation:
  assumes "ParseFromString c message_data = Some broker_message"
  shows "(\<not> palm s \<longrightarrow>
      translate_from_broker c pc message_data s = Inr (payload broker_message, s)) \<and>
   (palm s \<and> cache s = Some ch \<and> cache_get (key broker_message) ch = Some cached \<and>
    ParsePalm pc cached = Some palm_message \<longrightarrow>
      translate_from_broker c pc message_data s =
        Inr (SerializePalm pc (palm_message\<lparr>palm_payload := payload broker_message\<rparr>), s) \<and>
      client (palm_message\<lparr>palm_payload := payload broker_message\<rparr>) = client palm_message \<and>
      pipeline (palm_message\<lparr>palm_payload := payload broker_message\<rparr>) =
        pipeline palm_message \<and>
      func (palm_message\<lparr>palm_payload := payload broker_message\<rparr>) = func palm_message \<and>
      stage (palm_message\<lparr>palm_payload := payload broker_message\<rparr>) = stage palm_message \<and>
      PalmMessage.more (palm_message\<lparr>palm_payload := payload broker_message\<rparr>) =
        PalmMessage.more palm_message \<and>
      cache_get (key broker_message) (the (cache s)) = Some cached)"
  using assms by (simp add: translate_from_broker_def)

theorem reply_translation_witness:
  "ParseFromString wire (msg ''a'' ''HELLO'') = Some \<lparr>key = ''a'', payload = ''HELLO''\<rparr> \<and>
   palm palm_service \<and> cache palm_service = Some [(''a'', palm_serialize hello)] \<and>
   cache_get ''a'' [(''a'', palm_serialize hello)] = Some (palm_serialize hello) \<and>
   ParsePalm palm_wire (palm_serialize hello) = Some hello \<and>
   translate_from_broker wire palm_wire (msg ''a'' ''HELLO'') palm_service =
     Inr (palm_serialize (hello\<lparr>palm_payload := ''HELLO''\<rparr>), palm_service) \<and>
   \<not> palm binary_service \<and>
   translate_from_broker wire palm_wire (msg ''a'' ''HELLO'') binary_service =
     Inr (''HELLO'', binary_service)"
proof -
  let ?bm = "\<lparr>key = ''a'', payload = ''HELLO''\<rparr>"
  have h: "ParseFromString wire (msg ''a'' ''HELLO'') = Some ?bm" by code_simp
  have p: "palm palm_service \<and> cache palm_service = Some [(''a'', palm_serialize hello)] \<and>
    cache_get (key ?bm) [(''a'', palm_serialize hello)] = Some (palm_serialize hello) \<and>
    ParsePalm palm_wire (palm_serialize hello) = Some hello" by code_simp
  have b: "\<not> palm binary_service" by code_simp
  have e: "SerializePalm palm_wire (hello\<lparr>palm_payload := payload ?bm\<rparr>) =
    palm_serialize (hello\<lparr>palm_payload := ''HELLO''\<rparr>)" by (simp add: palm_wire_def)
  note t1 = reply_translation [OF h, where s = palm_service and pc = palm_wire
      and ch = "[(''a'', palm_serialize hello)]" and cached = "palm_serialize hello"
      and palm_message = hello]
  note t2 = reply_translation [OF h, where s = binary_service and pc = palm_wire]
  have r1: "translate_from_broker wire palm_wire (msg ''a'' ''HELLO'') palm_service =
     Inr (palm_serialize (hello\<lparr>palm_payload := ''HELLO''\<rparr>), palm_service)"
    using t1 p unfolding e by blast
  have r2: "translate_from_broker wire palm_wire (msg ''a'' ''HELLO'') binary_service =
     Inr (''HELLO'', binary_service)"
    using t2 b by simp
  from h p r1 b r2 show ?thesis by simp
qed


section \<open>C7: one broker message, many pushes, one reply\<close>

declare fan_out.simps [simp del]

lemma act_fields [simp]:
  "trace (act as s) = trace s @ as"
  "pull_in (act as s) = pull_in s"
  "broker_in (act as s) = broker_in s"
  "user (act as s) = user s"
  "slog (act as s) = slog s"
  "n_messages (act as s) = n_messages s"
  by (simp_all add: act_def)

lemma slogmsg_fields [simp]:
  "trace (slogmsg lv m s) = trace s"
  "pull_in (slogmsg lv m s) = pull_in s"
  "broker_in (slogmsg lv m s) = broker_in s"
  "user (slogmsg lv m s) = user s"
  "slog (slogmsg lv m s) = slog s @ [(lv, m)]"
  "n_messages (slogmsg lv m s) = n_messages s"
  by (simp_all add: slogmsg_def)

lemma greet_fields [simp]:
  "trace (greet c s) =
     trace s @ [BrokerSend (SerializeToString c \<lparr>key = ''0'', payload = ''0''\<rparr>)]"
  "pull_in (greet c s) = pull_in s"
  "broker_in (greet c s) = broker_in s"
  "user (greet c s) = user s"
  "n_messages (greet c s) = n_messages s"
  by (simp_all add: greet_def)

lemma received_fields [simp]:
  "trace (received m later s) = trace s @ [BrokerRecv m]"
  "pull_in (received m later s) = pull_in s"
  "broker_in (received m later s) = later"
  "user (received m later s) = user s"
  "n_messages (received m later s) = n_messages s"
  by (simp_all add: received_def)

lemma finished_Done: "finished e \<Longrightarrow> e = Done (ending_state e)"
  by (cases e) simp_all

text \<open>When the loop over the generator ends normally, what it did is push, pull and
  handle, element by element, for exactly the exchanges of the specification's
  wording.\<close>

lemma fan_out_Done:
  "fan_out h g s = Done s' \<Longrightarrow>
     trace s' = trace s @
       concat (map (\<lambda>(x, r). [PushSend x, PullRecv r, HandleFeedback r])
                   (exchanges h g (user s) (pull_in s))) \<and>
     pull_in s' = drop (length (exchanges h g (user s) (pull_in s))) (pull_in s) \<and>
     broker_in s' = broker_in s \<and> n_messages s' = n_messages s"
proof (induction h g s rule: fan_out.induct)
  case (1 h g s)
  show ?case
  proof (cases "resume h g (user s)")
    case (Pair res u)
    show ?thesis
    proof (cases res)
      case Stop
      with Pair "1.prems" have "s' = s\<lparr>user := u\<rparr>"
        by (simp add: fan_out.simps [of h g s])
      with Pair Stop show ?thesis
        by (cases "pull_in s") simp_all
    next
      case (Throw e)
      with Pair "1.prems" show ?thesis
        by (simp add: fan_out.simps [of h g s])
    next
      case (Yield x g')
      show ?thesis
      proof (cases "pull_in s")
        case Nil
        with Pair Yield "1.prems" show ?thesis
          by (simp add: fan_out.simps [of h g s])
      next
        case (Cons r rs)
        let ?t = "(act [PushSend x, PullRecv r, HandleFeedback r] s)
                    \<lparr>pull_in := rs, user := handle_feedback h r u\<rparr>"
        from Pair Yield Cons "1.prems" have "fan_out h g' ?t = Done s'"
          by (simp add: fan_out.simps [of h g s])
        from "1.IH" [OF Pair [symmetric] Yield Cons this] Pair Yield Cons
        show ?thesis by simp
      qed
    qed
  qed
qed

lemma fan_out_BrokerRecv:
  "filter is_BrokerRecv (trace (ending_state (fan_out h g s))) =
     filter is_BrokerRecv (trace s)"
proof (induction h g s rule: fan_out.induct)
  case (1 h g s)
  show ?case
  proof (cases "resume h g (user s)")
    case (Pair res u)
    show ?thesis
    proof (cases res)
      case Stop
      with Pair show ?thesis by (simp add: fan_out.simps [of h g s])
    next
      case (Throw e)
      with Pair show ?thesis by (simp add: fan_out.simps [of h g s])
    next
      case (Yield x g')
      show ?thesis
      proof (cases "pull_in s")
        case Nil
        with Pair Yield show ?thesis by (simp add: fan_out.simps [of h g s])
      next
        case (Cons r rs)
        from "1.IH" [OF Pair [symmetric] Yield Cons] Pair Yield Cons
        show ?thesis by (simp add: fan_out.simps [of h g s])
      qed
    qed
  qed
qed

lemma serve_BrokerRecv:
  "length (filter is_BrokerRecv (trace (ending_state (serve h n s)))) \<le>
     length (filter is_BrokerRecv (trace s)) + n"
proof (induction n arbitrary: s)
  case 0
  then show ?case by simp
next
  case (Suc n)
  show ?case
  proof (cases "broker_in s")
    case Nil
    then show ?thesis by simp
  next
    case (Cons m later)
    let ?e = "fan_out h (scatter h m) (received m later s)"
    have f: "filter is_BrokerRecv (trace (ending_state ?e)) =
        filter is_BrokerRecv (trace s) @ [BrokerRecv m]"
      by (simp add: fan_out_BrokerRecv)
    show ?thesis
    proof (cases ?e)
      case (Waiting s')
      with f Cons show ?thesis by simp
    next
      case (Failed e s')
      with f Cons show ?thesis by simp
    next
      case (Done s')
      with f have "length (filter is_BrokerRecv
          (trace (act [BrokerSend (reply_feedback h (user s'))] s'))) =
        Suc (length (filter is_BrokerRecv (trace s)))"
        by simp
      with Suc.IH [of "act [BrokerSend (reply_feedback h (user s'))] s'"] Done Cons
      show ?thesis by simp
    qed
  qed
qed

text \<open>One pass of the loop of the service.\<close>

lemma serve_round:
  assumes "broker_in s = message_data # later"
    and "fan_out h (scatter h message_data) (received message_data later s) = Done s1"
  shows "serve h (Suc n) s = serve h n (act [BrokerSend (reply_feedback h (user s1))] s1)"
    and "trace (act [BrokerSend (reply_feedback h (user s1))] s1) =
      trace s @ round_actions h (user s) message_data (pull_in s) (reply_feedback h (user s1))"
    and "pull_in s1 =
      drop (length (exchanges h (scatter h message_data) (user s) (pull_in s))) (pull_in s)"
proof -
  show "serve h (Suc n) s = serve h n (act [BrokerSend (reply_feedback h (user s1))] s1)"
    using assms by simp
  from fan_out_Done [OF assms(2)]
  show "trace (act [BrokerSend (reply_feedback h (user s1))] s1) =
      trace s @ round_actions h (user s) message_data (pull_in s) (reply_feedback h (user s1))"
    and "pull_in s1 =
      drop (length (exchanges h (scatter h message_data) (user s) (pull_in s))) (pull_in s)"
    by (simp_all add: round_actions_def)
qed

text \<open>A generator that only yields the values of a list is the special case in which the
  pushes are known beforehand.\<close>

lemma fan_out_yield_each:
  assumes "resume h = yield_each" and "length xs \<le> length (pull_in s)"
  shows "fan_out h xs s =
    Done (s\<lparr>trace := trace s @
               concat (map (\<lambda>(x, r). [PushSend x, PullRecv r, HandleFeedback r])
                           (zip xs (pull_in s))),
             pull_in := drop (length xs) (pull_in s),
             user := fold (handle_feedback h) (take (length xs) (pull_in s)) (user s)\<rparr>)"
  using assms(2)
proof (induction xs arbitrary: s)
  case Nil
  then show ?case
    by (simp add: fan_out.simps [of h "[]" s] assms(1) yield_each_def)
next
  case (Cons x xs)
  then obtain r rs where p: "pull_in s = r # rs"
    by (cases "pull_in s") auto
  with Cons.prems have "length xs \<le> length rs" by simp
  then show ?case
    using p
    by (simp add: fan_out.simps [of h "x # xs" s] assms(1) yield_each_def Cons.IH act_def)
qed

text \<open>
  C7. A service that is to serve at least one message, that finds a message of the broker
  waiting, and whose loop over the generator ends normally (the pool having answered
  every push) does exactly this, in this order: it announces itself, receives the
  message, then for every element that \<open>scatter\<close> yields it pushes the element, pulls
  one response and hands it to \<open>handle_feedback\<close> before the generator is resumed for
  the next element, and after the last element it sends one \<open>reply_feedback()\<close> value
  to the broker; then the loop goes on with one pass fewer to do. Every later pass of the
  loop is of the same form. Over a whole run the service receives at most \<open>n_messages\<close>
  messages from the broker.
\<close>

theorem scatter_round:
  assumes "0 < n_messages s"
    and "broker_in s = message_data # later"
    and "fan_out h (scatter h message_data) (received message_data later (greet c s)) = Done s1"
  shows "service_start c h s =
      serve h (nat (n_messages s) - 1) (act [BrokerSend (reply_feedback h (user s1))] s1) \<and>
    trace (act [BrokerSend (reply_feedback h (user s1))] s1) =
      trace s @
      BrokerSend (SerializeToString c \<lparr>key = ''0'', payload = ''0''\<rparr>) #
      round_actions h (user s) message_data (pull_in s) (reply_feedback h (user s1)) \<and>
    pull_in s1 =
      drop (length (exchanges h (scatter h message_data) (user s) (pull_in s))) (pull_in s) \<and>
    (\<forall>k t m t_later t1.
       broker_in t = m # t_later \<and>
       fan_out h (scatter h m) (received m t_later t) = Done t1 \<longrightarrow>
         serve h (Suc k) t = serve h k (act [BrokerSend (reply_feedback h (user t1))] t1) \<and>
         trace (act [BrokerSend (reply_feedback h (user t1))] t1) =
           trace t @ round_actions h (user t) m (pull_in t) (reply_feedback h (user t1)) \<and>
         pull_in t1 = drop (length (exchanges h (scatter h m) (user t) (pull_in t))) (pull_in t)) \<and>
    length (filter is_BrokerRecv (trace (ending_state (service_start c h s)))) \<le>
      length (filter is_BrokerRecv (trace s)) + nat (n_messages s)"
proof -
  from assms(1) obtain n where n: "nat (n_messages s) = Suc n"
    by (cases "nat (n_messages s)") auto
  have b: "broker_in (greet c s) = message_data # later"
    using assms(2) by simp
  have p1: "service_start c h s =
      serve h (nat (n_messages s) - 1) (act [BrokerSend (reply_feedback h (user s1))] s1)"
    using serve_round(1) [OF b assms(3), of n] n by (simp add: service_start_def)
  have p2: "trace (act [BrokerSend (reply_feedback h (user s1))] s1) =
      trace s @
      BrokerSend (SerializeToString c \<lparr>key = ''0'', payload = ''0''\<rparr>) #
      round_actions h (user s) message_data (pull_in s) (reply_feedback h (user s1))"
    using serve_round(2) [OF b assms(3)] by simp
  have p3: "pull_in s1 =
      drop (length (exchanges h (scatter h message_data) (user s) (pull_in s))) (pull_in s)"
    using serve_round(3) [OF b assms(3)] by simp
  have p4: "serve h (Suc k) t = serve h k (act [BrokerSend (reply_feedback h (user t1))] t1) \<and>
         trace (act [BrokerSend (reply_feedback h (user t1))] t1) =
           trace t @ round_actions h (user t) m (pull_in t) (reply_feedback h (user t1)) \<and>
         pull_in t1 = drop (length (exchanges h (scatter h m) (user t) (pull_in t))) (pull_in t)"
    if "broker_in t = m # t_later \<and> fan_out h (scatter h m) (received m t_later t) = Done t1"
    for k t m t_later t1
  proof -
    from that have tb: "broker_in t = m # t_later"
      and td: "fan_out h (scatter h m) (received m t_later t) = Done t1"
      by blast+
    show ?thesis
      using serve_round(1) [OF tb td, of k] serve_round(2) [OF tb td] serve_round(3) [OF tb td]
      by blast
  qed
  have "filter is_BrokerRecv (trace (greet c s)) = filter is_BrokerRecv (trace s)"
    by simp
  with serve_BrokerRecv [of h "nat (n_messages s)" "greet c s"]
  have p5: "length (filter is_BrokerRecv (trace (ending_state (service_start c h s)))) \<le>
      length (filter is_BrokerRecv (trace s)) + nat (n_messages s)"
    by (simp add: service_start_def)
  from p1 p2 p3 p4 p5 show ?thesis by blast
qed

theorem scatter_round_witness:
  "0 < n_messages feedback_service \<and>
   broker_in feedback_service = ''x'' # [] \<and>
   finished (fan_out growing_hooks (scatter growing_hooks ''x'')
     (received ''x'' [] (greet wire feedback_service))) \<and>
   finished (service_start wire growing_hooks feedback_service) \<and>
   trace (ending_state (service_start wire growing_hooks feedback_service)) =
     [BrokerSend (msg ''0'' ''0''), BrokerRecv ''x'',
      PushSend ''x'', PullRecv ''r1'', HandleFeedback ''r1'',
      PushSend ''xr1'', PullRecv ''r2'', HandleFeedback ''r2'',
      BrokerSend ''r1r2'']"
proof -
  let ?s = "feedback_service"
  let ?e = "fan_out growing_hooks (scatter growing_hooks ''x'')
     (received ''x'' [] (greet wire ?s))"
  let ?s1 = "ending_state ?e"
  let ?x = "act [BrokerSend (reply_feedback growing_hooks (user ?s1))] ?s1"
  have h1: "0 < n_messages ?s" by code_simp
  have h2: "broker_in ?s = ''x'' # []" by code_simp
  have f: "finished ?e" by code_simp
  then have h3: "?e = Done ?s1" by (rule finished_Done)
  have e0: "nat (n_messages ?s) - 1 = 0" by code_simp
  have e: "trace ?s @
      BrokerSend (SerializeToString wire \<lparr>key = ''0'', payload = ''0''\<rparr>) #
      round_actions growing_hooks (user ?s) ''x'' (pull_in ?s)
        (reply_feedback growing_hooks (user ?s1)) =
     [BrokerSend (msg ''0'' ''0''), BrokerRecv ''x'',
      PushSend ''x'', PullRecv ''r1'', HandleFeedback ''r1'',
      PushSend ''xr1'', PullRecv ''r2'', HandleFeedback ''r2'',
      BrokerSend ''r1r2'']" by code_simp
  from scatter_round [OF h1 h2 h3]
  have "service_start wire growing_hooks ?s = serve growing_hooks 0 ?x"
    and t: "trace ?x =
     [BrokerSend (msg ''0'' ''0''), BrokerRecv ''x'',
      PushSend ''x'', PullRecv ''r1'', HandleFeedback ''r1'',
      PushSend ''xr1'', PullRecv ''r2'', HandleFeedback ''r2'',
      BrokerSend ''r1r2'']"
    unfolding e0 e by blast+
  then have "service_start wire growing_hooks ?s = Done ?x"
    by (simp only: serve.simps(1))
  then have "finished (service_start wire growing_hooks ?s) \<and>
    trace (ending_state (service_start wire growing_hooks ?s)) = trace ?x"
    by (simp only: finished.simps ending_state.simps simp_thms)
  with h1 h2 f t show ?thesis by (simp only: simp_thms)
qed

text \<open>The example of the documentation, \<open>MyMaster\<close>, pushes the message three times.\<close>

lemma MyMaster_run:
  "trace (ending_state (service_start wire MyMaster_hooks scatter_service)) =
     [BrokerSend (msg ''0'' ''0''), BrokerRecv (msg ''k'' ''m''),
      PushSend (msg ''k'' ''m''), PullRecv ''r1'', HandleFeedback ''r1'',
      PushSend (msg ''k'' ''m''), PullRecv ''r2'', HandleFeedback ''r2'',
      PushSend (msg ''k'' ''m''), PullRecv ''r3'', HandleFeedback ''r3'',
      BrokerSend ''0'']"
  by code_simp

section \<open>C10: what the service answers the broker\<close>

text \<open>
  C10. After the fan-out for a broker message has ended normally (the pool having
  answered every push) the next thing the service does is send the broker the value of
  \<open>reply_feedback()\<close>, as it is: the last action of the pass is that send, of the hook's
  value on the state the feedback handlers left. With the hooks of \<open>PushPullService\<close> a
  service that is to serve one message does, whatever the codec \<open>c\<close>, the message \<open>m\<close>
  and the response \<open>r\<close>: send the \<open>ready\<close> envelope serialised by \<open>c\<close>, receive \<open>m\<close>,
  push \<open>m\<close>, pull and handle \<open>r\<close>, send the bytes \<open>0\<close>. The reply does not pass through
  the codec and does not depend on the request.
\<close>

theorem reply_feedback_sent_as_is:
  assumes "broker_in s = message_data # later"
    and "finished (fan_out h (scatter h message_data) (received message_data later s))"
  shows "(\<exists>s'. serve h (Suc n) s = serve h n s' \<and>
       trace s' \<noteq> [] \<and> last (trace s') = BrokerSend (reply_feedback h (user s'))) \<and>
    (n_messages s = 1 \<and> later = [] \<and> pull_in s = [r] \<longrightarrow>
       finished (service_start c PushPullService_hooks s) \<and>
       trace (ending_state (service_start c PushPullService_hooks s)) =
         trace s @
         [BrokerSend (SerializeToString c \<lparr>key = ''0'', payload = ''0''\<rparr>),
          BrokerRecv message_data, PushSend message_data, PullRecv r, HandleFeedback r,
          BrokerSend ''0''])"
proof (intro conjI impI)
  from assms(2) obtain s1 where
    d: "fan_out h (scatter h message_data) (received message_data later s) = Done s1"
    using finished_Done by blast
  show "\<exists>s'. serve h (Suc n) s = serve h n s' \<and>
       trace s' \<noteq> [] \<and> last (trace s') = BrokerSend (reply_feedback h (user s'))"
    by (rule exI, rule conjI, rule serve_round(1) [OF assms(1) d]) simp
next
  assume a: "n_messages s = 1 \<and> later = [] \<and> pull_in s = [r]"
  let ?h = "PushPullService_hooks :: ('a, bytes list) hooks"
  let ?t = "received message_data later (greet c s)"
  have b: "broker_in (greet c s) = message_data # later"
    using assms(1) by simp
  have "length (scatter ?h message_data) \<le> length (pull_in ?t)"
    using a by (simp add: PushPullService_hooks_def)
  from fan_out_yield_each [OF _ this]
  have fo: "fan_out ?h (scatter ?h message_data) ?t =
    Done (?t\<lparr>trace := trace s @
                 [BrokerSend (SerializeToString c \<lparr>key = ''0'', payload = ''0''\<rparr>),
                  BrokerRecv message_data, PushSend message_data, PullRecv r, HandleFeedback r],
               pull_in := [], user := user s\<rparr>)" (is "_ = Done ?x")
    using a by (simp add: PushPullService_hooks_def)
  have st: "service_start c ?h s = serve ?h (Suc 0) (greet c s)"
    using a by (simp add: service_start_def)
  have r: "service_start c ?h s = Done (act [BrokerSend (reply_feedback ?h (user ?x))] ?x)"
    unfolding st serve_round(1) [OF b fo] by simp
  show "finished (service_start c PushPullService_hooks s)"
    unfolding r by simp
  show "trace (ending_state (service_start c PushPullService_hooks s)) =
         trace s @
         [BrokerSend (SerializeToString c \<lparr>key = ''0'', payload = ''0''\<rparr>),
          BrokerRecv message_data, PushSend message_data, PullRecv r, HandleFeedback r,
          BrokerSend ''0'']"
    unfolding r by (simp add: PushPullService_hooks_def)
qed

theorem reply_feedback_sent_as_is_witness:
  "broker_in (scatter_service\<lparr>pull_in := [''r1'']\<rparr>) = msg ''k'' ''m'' # [] \<and>
   finished (fan_out PushPullService_hooks (scatter PushPullService_hooks (msg ''k'' ''m''))
     (received (msg ''k'' ''m'') [] (scatter_service\<lparr>pull_in := [''r1'']\<rparr>))) \<and>
   n_messages (scatter_service\<lparr>pull_in := [''r1'']\<rparr>) = 1 \<and>
   finished (service_start wire PushPullService_hooks (scatter_service\<lparr>pull_in := [''r1'']\<rparr>)) \<and>
   trace (ending_state
     (service_start wire PushPullService_hooks (scatter_service\<lparr>pull_in := [''r1'']\<rparr>))) =
     [BrokerSend (msg ''0'' ''0''), BrokerRecv (msg ''k'' ''m''), PushSend (msg ''k'' ''m''),
      PullRecv ''r1'', HandleFeedback ''r1'', BrokerSend ''0'']"
proof -
  let ?s = "scatter_service\<lparr>pull_in := [''r1'']\<rparr>"
  let ?m = "msg ''k'' ''m''"
  have h1: "broker_in ?s = ?m # []" by code_simp
  have h2: "finished (fan_out PushPullService_hooks (scatter PushPullService_hooks ?m)
     (received ?m [] ?s))" by code_simp
  have h3: "n_messages ?s = 1 \<and> ([]::bytes list) = [] \<and> pull_in ?s = [''r1'']" by code_simp
  have e: "trace ?s @
         [BrokerSend (SerializeToString wire \<lparr>key = ''0'', payload = ''0''\<rparr>),
          BrokerRecv ?m, PushSend ?m, PullRecv ''r1'', HandleFeedback ''r1'',
          BrokerSend ''0''] =
     [BrokerSend (msg ''0'' ''0''), BrokerRecv ?m, PushSend ?m,
      PullRecv ''r1'', HandleFeedback ''r1'', BrokerSend ''0'']" by code_simp
  from reply_feedback_sent_as_is [OF h1 h2, of _ "''r1''" wire] h3
  have "finished (service_start wire PushPullService_hooks ?s) \<and>
    trace (ending_state (service_start wire PushPullService_hooks ?s)) =
     [BrokerSend (msg ''0'' ''0''), BrokerRecv ?m, PushSend ?m,
      PullRecv ''r1'', HandleFeedback ''r1'', BrokerSend ''0'']"
    unfolding e by blast
  with h1 h2 h3 show ?thesis by blast
qed


end
